theory Spec2Isabelle
  imports Main "HOL-Library.Word"
begin

section \<open>The name codec of the file storage\<close>

text \<open>
  The embedding follows \<^verbatim>\<open>leveldb/storage/file_storage.go\<close>. A Go string is scanned
  rune by rune (\<^verbatim>\<open>ReadRune\<close>), so a file name and a file's content are modelled as the
  sequence of runes (Unicode code points) that reading them yields; \<open>runes\<close> gives that
  sequence for an ASCII literal.
\<close>

type_synonym rune = nat

definition runes :: "string \<Rightarrow> rune list" where
  "runes s = map of_char s"

text \<open>
  Modelled from the spec: the declaration of \<^verbatim>\<open>FileType\<close> and its constants is in
  \<^verbatim>\<open>storage.go\<close>, which is not among the sources. The spec gives the kinds Journal,
  Table, Manifest and Other; \<open>TypeOther\<close> stands for every value that is none of the three
  constants (the zero value of a fresh \<^verbatim>\<open>file\<close> among them).
\<close>

datatype FileType = TypeManifest | TypeJournal | TypeTable | TypeOther

text \<open>
  \<^verbatim>\<open>type file struct { fs *fileStorage; num uint64; t FileType; open bool }\<close>.
  There is one storage in the model, so the back pointer \<^verbatim>\<open>fs\<close> is left implicit.
  (\<open>file\<close> is a keyword of Isabelle: the record is named \<open>File\<close>, after the interface
  that the struct implements, and its fields carry the prefix \<open>f_\<close>.)
\<close>

record File =
  f_num :: "64 word"
  f_t :: FileType
  f_open :: bool

text \<open>A panic is an outcome of its own, never an error value.\<close>

datatype 'a outcome = Panics string | Returns 'a

subsection \<open>Printing: \<^verbatim>\<open>fmt.Sprintf("%06d", num)\<close>\<close>

fun decimal :: "nat \<Rightarrow> rune list" where
  "decimal n = (if n < 10 then [48 + n] else decimal (n div 10) @ [48 + n mod 10])"

declare decimal.simps [simp del]

text \<open>Width 6 with the zero flag: zeros are put in front up to six runes, nothing is cut.\<close>

definition Sprintf_06d :: "64 word \<Rightarrow> rune list" where
  "Sprintf_06d n = (let ds = decimal (unat n) in replicate (6 - length ds) 48 @ ds)"

definition name :: "File \<Rightarrow> rune list outcome" where
  "name f =
     (case f_t f of
        TypeManifest \<Rightarrow> Returns (runes ''MANIFEST-'' @ Sprintf_06d (f_num f))
      | TypeJournal \<Rightarrow> Returns (Sprintf_06d (f_num f) @ runes ''.log'')
      | TypeTable \<Rightarrow> Returns (Sprintf_06d (f_num f) @ runes ''.sst'')
      | TypeOther \<Rightarrow> Panics ''invalid file type'')"

subsection \<open>Scanning: \<^verbatim>\<open>fmt.Sscanf\<close>\<close>

text \<open>
  \<^verbatim>\<open>fmt.Sscanf\<close> belongs to Go's library. The model follows \<^verbatim>\<open>fmt/scan.go\<close> for the
  two formats that \<^verbatim>\<open>parse\<close> uses: literal runes, \<^verbatim>\<open>%d\<close> into a \<^verbatim>\<open>*uint64\<close> and
  \<^verbatim>\<open>%s\<close> into a \<^verbatim>\<open>*string\<close>, without widths. Every panic that the scanner raises
  and \<^verbatim>\<open>errorHandler\<close> turns into the returned error is an \<open>Inl\<close>.
\<close>

datatype scan_error =
    UnexpectedNewline | EOF | UnexpectedEOF | ExpectedInteger | InputMismatch
  | SyntaxError | RangeError

definition isSpace :: "rune \<Rightarrow> bool" where
  "isSpace r \<longleftrightarrow>
     (9 \<le> r \<and> r \<le> 13) \<or> r = 32 \<or> r = 133 \<or> r = 160 \<or> r = 5760 \<or>
     (8192 \<le> r \<and> r \<le> 8202) \<or> r = 8232 \<or> r = 8233 \<or> r = 8239 \<or> r = 8287 \<or>
     r = 12288"

text \<open>
  \<^verbatim>\<open>SkipSpace\<close> with \<^verbatim>\<open>nlIsSpace = false\<close>, as \<^verbatim>\<open>Sscanf\<close> sets it: a newline is
  an error, other white space is skipped (a carriage return is white space, so the
  test for a carriage return before a newline changes nothing).
\<close>

fun SkipSpace :: "rune list \<Rightarrow> scan_error + rune list" where
  "SkipSpace [] = Inr []"
| "SkipSpace (r # rs) =
     (if r = 10 then Inl UnexpectedNewline
      else if isSpace r then SkipSpace rs
      else Inr (r # rs))"

definition isDigit :: "rune \<Rightarrow> bool" where
  "isDigit r \<longleftrightarrow> 48 \<le> r \<and> r \<le> 57"

text \<open>\<^verbatim>\<open>getBase\<close> gives \<^verbatim>\<open>%d\<close> the digits \<^verbatim>\<open>"0123456789_"\<close>.\<close>

definition accepted :: "rune \<Rightarrow> bool" where
  "accepted r \<longleftrightarrow> isDigit r \<or> r = 95"

definition scanNumber :: "rune list \<Rightarrow> scan_error + rune list \<times> rune list" where
  "scanNumber inp =
     (if inp = [] then Inl EOF
      else if takeWhile accepted inp = [] then Inl ExpectedInteger
      else Inr (takeWhile accepted inp, dropWhile accepted inp))"

text \<open>
  \<^verbatim>\<open>strconv.ParseUint(tok, 10, 64)\<close>, digit by digit from the left: a rune that is not
  a decimal digit is a syntax error (the underscore too, in base 10), a value beyond
  \<open>2^64 - 1\<close> a range error.
\<close>

fun ParseUint_from :: "nat \<Rightarrow> rune list \<Rightarrow> scan_error + nat" where
  "ParseUint_from n [] = Inr n"
| "ParseUint_from n (c # cs) =
     (if \<not> isDigit c then Inl SyntaxError
      else if 18446744073709551616 \<le> n * 10 + (c - 48) then Inl RangeError
      else ParseUint_from (n * 10 + (c - 48)) cs)"

definition ParseUint :: "rune list \<Rightarrow> scan_error + 64 word" where
  "ParseUint tok =
     (if tok = [] then Inl SyntaxError
      else (case ParseUint_from 0 tok of Inl e \<Rightarrow> Inl e | Inr n \<Rightarrow> Inr (word_of_nat n)))"

definition scanUint :: "rune list \<Rightarrow> scan_error + 64 word \<times> rune list" where
  "scanUint inp =
     (case SkipSpace inp of
        Inl e \<Rightarrow> Inl e
      | Inr i1 \<Rightarrow>
          if i1 = [] then Inl EOF
          else (case scanNumber i1 of
             Inl e \<Rightarrow> Inl e
           | Inr (tok, rest) \<Rightarrow>
               (case ParseUint tok of Inl e \<Rightarrow> Inl e | Inr v \<Rightarrow> Inr (v, rest))))"

text \<open>
  \<^verbatim>\<open>convertString\<close> for \<^verbatim>\<open>%s\<close>: skip white space, fail at the end of the input,
  then \<^verbatim>\<open>token(true, notSpace)\<close> takes the runes up to the next white space.
\<close>

definition convertString :: "rune list \<Rightarrow> scan_error + rune list \<times> rune list" where
  "convertString inp =
     (case SkipSpace inp of
        Inl e \<Rightarrow> Inl e
      | Inr i1 \<Rightarrow>
          if i1 = [] then Inl EOF
          else (case SkipSpace i1 of
             Inl e \<Rightarrow> Inl e
           | Inr i2 \<Rightarrow>
               Inr (takeWhile (\<lambda>r. \<not> isSpace r) i2, dropWhile (\<lambda>r. \<not> isSpace r) i2)))"

text \<open>\<^verbatim>\<open>advance\<close> over literal runes of the format (none of them white space or a percent).\<close>

fun advance :: "rune list \<Rightarrow> rune list \<Rightarrow> scan_error + rune list" where
  "advance [] inp = Inr inp"
| "advance (c # cs) [] = Inl UnexpectedEOF"
| "advance (c # cs) (r # rs) = (if c = r then advance cs rs else Inl InputMismatch)"

datatype fmt_item = Lit "rune list" | Verb_d | Verb_s

datatype scanned = U64 "64 word" | Str "rune list"

text \<open>
  \<^verbatim>\<open>doScanf\<close>: the operands stored so far and the error, if any. A verb other than
  \<^verbatim>\<open>%c\<close> skips white space before it scans. The number of operands processed, which
  \<^verbatim>\<open>Sscanf\<close> returns, is the length of the list.
\<close>

fun doScanf :: "fmt_item list \<Rightarrow> rune list \<Rightarrow> scanned list \<times> scan_error option" where
  "doScanf [] inp = ([], None)"
| "doScanf (Lit l # fs) inp =
     (case advance l inp of
        Inl e \<Rightarrow> ([], Some e)
      | Inr rest \<Rightarrow> doScanf fs rest)"
| "doScanf (Verb_d # fs) inp =
     (case SkipSpace inp of
        Inl e \<Rightarrow> ([], Some e)
      | Inr i1 \<Rightarrow>
          (case scanUint i1 of
             Inl e \<Rightarrow> ([], Some e)
           | Inr (v, rest) \<Rightarrow> (case doScanf fs rest of (vs, e) \<Rightarrow> (U64 v # vs, e))))"
| "doScanf (Verb_s # fs) inp =
     (case SkipSpace inp of
        Inl e \<Rightarrow> ([], Some e)
      | Inr i1 \<Rightarrow>
          (case convertString i1 of
             Inl e \<Rightarrow> ([], Some e)
           | Inr (v, rest) \<Rightarrow> (case doScanf fs rest of (vs, e) \<Rightarrow> (Str v # vs, e))))"

definition Sscanf :: "rune list \<Rightarrow> fmt_item list \<Rightarrow> scanned list \<times> scan_error option" where
  "Sscanf str fmt = doScanf fmt str"

text \<open>The formats \<^verbatim>\<open>"%d.%s"\<close> and \<^verbatim>\<open>"MANIFEST-%d%s"\<close>.\<close>

definition fmt_d_dot_s :: "fmt_item list" where
  "fmt_d_dot_s = [Verb_d, Lit (runes ''.''), Verb_s]"

definition fmt_MANIFEST_d_s :: "fmt_item list" where
  "fmt_MANIFEST_d_s = [Lit (runes ''MANIFEST-''), Verb_d, Verb_s]"

text \<open>
  \<^verbatim>\<open>func (f *file) parse(name string) bool\<close>: the result and the file as the call
  leaves it. The first scan decides when it returns no error; otherwise the second
  decides by the number of operands it stored.
\<close>

definition parse :: "File \<Rightarrow> rune list \<Rightarrow> bool \<times> File" where
  "parse f nm =
     (case Sscanf nm fmt_d_dot_s of
        (vs, None) \<Rightarrow>
          (case vs of
             [U64 num, Str tail] \<Rightarrow>
               if tail = runes ''log'' then (True, f\<lparr>f_t := TypeJournal, f_num := num\<rparr>)
               else if tail = runes ''sst'' then (True, f\<lparr>f_t := TypeTable, f_num := num\<rparr>)
               else (False, f)
           | _ \<Rightarrow> (False, f))
      | (vs, Some err) \<Rightarrow>
          (case Sscanf nm fmt_MANIFEST_d_s of
             (U64 num # ws, e) \<Rightarrow>
               if length (U64 num # ws) = 1 then (True, f\<lparr>f_t := TypeManifest, f_num := num\<rparr>)
               else (False, f)
           | _ \<Rightarrow> (False, f)))"

section \<open>The diagnostic log line\<close>

text \<open>\<^verbatim>\<open>uint(i)\<close> for a 64-bit \<^verbatim>\<open>int\<close>.\<close>

definition uint_of_int :: "int \<Rightarrow> nat" where
  "uint_of_int i = nat (i mod 18446744073709551616)"

text \<open>
  The loop of \<^verbatim>\<open>itoa\<close>: \<open>b\<close> is the array \<^verbatim>\<open>[32]byte\<close>, \<open>bp\<close> the index that
  counts down from 32. Writing below index 0 is Go's index panic.
\<close>

function itoa_loop :: "nat \<Rightarrow> int \<Rightarrow> nat \<Rightarrow> rune list \<Rightarrow> rune list outcome" where
  "itoa_loop u wid bp b =
     (if 0 < u \<or> 0 < wid then
        (if bp = 0 then Panics ''index out of range''
         else itoa_loop (u div 10) (wid - 1) (bp - 1) (b[bp - 1 := u mod 10 + 48]))
      else Returns (drop bp b))"
  by pat_completeness auto
termination
  by (relation "measure (\<lambda>(u, wid, bp, b). u + nat wid)") auto

declare itoa_loop.simps [simp del]

definition itoa :: "rune list \<Rightarrow> int \<Rightarrow> int \<Rightarrow> rune list outcome" where
  "itoa buf i wid =
     (let u = uint_of_int i in
      if u = 0 \<and> wid \<le> 1 then Returns (buf @ [48])
      else (case itoa_loop u wid 32 (replicate 32 0) of
              Panics p \<Rightarrow> Panics p
            | Returns ds \<Rightarrow> Returns (buf @ ds)))"

text \<open>
  What \<^verbatim>\<open>t.Date()\<close>, \<^verbatim>\<open>t.Clock()\<close> and \<^verbatim>\<open>t.Nanosecond()\<close> return for a
  \<^verbatim>\<open>time.Time\<close>.
\<close>

record Time =
  date_year :: int
  date_month :: int
  date_day :: int
  clock_hour :: int
  clock_min :: int
  clock_sec :: int
  nanosecond :: int

definition and_then :: "'a outcome \<Rightarrow> ('a \<Rightarrow> 'b outcome) \<Rightarrow> 'b outcome" where
  "and_then x g = (case x of Panics p \<Rightarrow> Panics p | Returns v \<Rightarrow> g v)"

text \<open>
  \<^verbatim>\<open>doLog\<close>: the buffer that is handed to \<^verbatim>\<open>fs.logw.Write\<close>. The widths are the
  source's: 4, 2, 4, 2, 2, 2 and 6. The nanoseconds are not negative, so Go's
  division by \<^verbatim>\<open>1e3\<close> is \<open>div\<close>.
\<close>

definition doLog :: "Time \<Rightarrow> rune list \<Rightarrow> rune list outcome" where
  "doLog t str =
     (let msec = nanosecond t div 1000 in
      and_then (itoa [] (date_year t) 4) (\<lambda>buf.
      and_then (itoa (buf @ runes ''/'') (date_month t) 2) (\<lambda>buf.
      and_then (itoa (buf @ runes ''/'') (date_day t) 4) (\<lambda>buf.
      and_then (itoa (buf @ runes '' '') (clock_hour t) 2) (\<lambda>buf.
      and_then (itoa (buf @ runes '':'') (clock_min t) 2) (\<lambda>buf.
      and_then (itoa (buf @ runes '':'') (clock_sec t) 2) (\<lambda>buf.
      and_then (itoa (buf @ runes ''.'') msec 6) (\<lambda>buf.
      Returns (buf @ runes '' '' @ str @ [10])))))))))"

section \<open>The storage\<close>

datatype os_error = ENOENT | EOther nat

text \<open>
  The errors of the package. \<open>ErrClosed\<close>, \<open>ErrLocked\<close> and \<open>ErrInvalidFile\<close> are
  declared in \<^verbatim>\<open>storage.go\<close>; \<open>errInvalidCURRENT\<close> is
  \<^verbatim>\<open>errors.New("leveldb/storage: invalid CURRENT file")\<close> and \<open>errFilesStillOpen n\<close> is
  \<^verbatim>\<open>fmt.Errorf("leveldb/storage: cannot close, %d files still open", n)\<close>. An error of
  the operating system is passed on as \<open>OSError\<close> (its wrapper, a path error or a link
  error, is not kept apart).
\<close>

datatype error =
    ErrClosed | ErrLocked | ErrInvalidFile | errFileOpen | errInvalidCURRENT
  | errFilesStillOpen int | OSError os_error

text \<open>
  The texts handed to \<^verbatim>\<open>fs.log\<close> and \<^verbatim>\<open>Log\<close>, one constructor for each call; the
  line written for a text is \<open>doLog\<close> of the time of the call and the text.
\<close>

datatype log_msg =
    Log_text "rune list"
  | Log_close_dir error
  | Log_close_CURRENT error
  | Log_CURRENT error
  | Log_close_CURRENT_tmp "64 word" error
  | Log_refuse_to_close int
  | Log_close_file FileType "64 word" error
  | Log_remove_file FileType "64 word" error

text \<open>
  \<^verbatim>\<open>type fileStorage struct\<close>: \<open>flock_held\<close> tells whether the process lock behind
  \<^verbatim>\<open>flock\<close> is held, \<open>slock\<close> whether \<^verbatim>\<open>slock\<close> is not nil, \<open>logw\<close> what has been
  written to the log file and \<open>logw_closed\<close> whether that file has been closed;
  \<open>fs_open\<close> is the field \<^verbatim>\<open>open\<close>, the counter of opened files, negative when the
  storage is closed. It is a Go \<^verbatim>\<open>int\<close>; it counts the objects whose open flag is
  set (\<open>counted\<close> below), so it stays far from the bounds of a machine integer and is
  modelled as an integer. The path, the mutex and the buffer are not modelled: every
  operation holds the mutex from its first statement to its return.
\<close>

record fileStorage =
  flock_held :: bool
  slock :: bool
  logw :: "log_msg list"
  logw_closed :: bool
  fs_open :: int

text \<open>
  The storage together with what its operations reach: \<open>heap\<close> holds the
  \<^verbatim>\<open>file\<close> objects, a \<^verbatim>\<open>*file\<close> is an index into it; \<open>dir\<close> is the directory
  \<^verbatim>\<open>fs.path\<close>, from file names to contents.
\<close>

record world = fileStorage +
  heap :: "File list"
  dir :: "rune list \<rightharpoonup> rune list"

text \<open>
  What the operating system answers to the calls of one operation: \<open>None\<close> where the
  call succeeds as far as the file system allows, \<open>Some e\<close> where it fails with \<open>e\<close>;
  \<open>readdirnames\<close> is the answer of \<^verbatim>\<open>Readdirnames(0)\<close>.
\<close>

record os_env =
  fault_open :: "os_error option"
  fault_read :: "os_error option"
  fault_write :: "os_error option"
  fault_rename :: "os_error option"
  fault_remove :: "os_error option"
  fault_close :: "os_error option"
  fault_logw_close :: "os_error option"
  fault_release :: "os_error option"
  readdirnames :: "rune list list"

definition no_faults :: os_env where
  "no_faults =
     \<lparr>fault_open = None, fault_read = None, fault_write = None, fault_rename = None,
      fault_remove = None, fault_close = None, fault_logw_close = None,
      fault_release = None, readdirnames = []\<rparr>"

text \<open>\<^verbatim>\<open>os.OpenFile(path, os.O_RDONLY, 0)\<close>.\<close>

definition os_OpenFile_RDONLY ::
  "os_env \<Rightarrow> (rune list \<rightharpoonup> rune list) \<Rightarrow> rune list \<Rightarrow> os_error + unit" where
  "os_OpenFile_RDONLY env d p =
     (case fault_open env of
        Some e \<Rightarrow> Inl e
      | None \<Rightarrow> (case d p of None \<Rightarrow> Inl ENOENT | Some c \<Rightarrow> Inr ()))"

text \<open>\<^verbatim>\<open>os.OpenFile(path, os.O_WRONLY|os.O_CREATE|os.O_TRUNC, 0644)\<close>.\<close>

definition os_OpenFile_CREATE ::
  "os_env \<Rightarrow> (rune list \<rightharpoonup> rune list) \<Rightarrow> rune list \<Rightarrow> os_error + (rune list \<rightharpoonup> rune list)" where
  "os_OpenFile_CREATE env d p =
     (case fault_open env of Some e \<Rightarrow> Inl e | None \<Rightarrow> Inr (d(p \<mapsto> [])))"

definition os_Remove ::
  "os_env \<Rightarrow> (rune list \<rightharpoonup> rune list) \<Rightarrow> rune list \<Rightarrow> os_error + (rune list \<rightharpoonup> rune list)" where
  "os_Remove env d p =
     (case fault_remove env of
        Some e \<Rightarrow> Inl e
      | None \<Rightarrow> (case d p of None \<Rightarrow> Inl ENOENT | Some c \<Rightarrow> Inr (d(p := None))))"

text \<open>A write through a handle appends; a failed write is taken to write nothing.\<close>

definition os_Write ::
  "os_env \<Rightarrow> (rune list \<rightharpoonup> rune list) \<Rightarrow> rune list \<Rightarrow> rune list \<Rightarrow>
   os_error + (rune list \<rightharpoonup> rune list)" where
  "os_Write env d p bytes =
     (case fault_write env of
        Some e \<Rightarrow> Inl e
      | None \<Rightarrow> (case d p of None \<Rightarrow> Inl ENOENT | Some c \<Rightarrow> Inr (d(p \<mapsto> c @ bytes))))"

text \<open>
  Modelled from the spec: \<^verbatim>\<open>rename\<close> is declared in the platform files of the package,
  which are not among the sources. The spec has it rename the temporary file over the
  canonical name atomically: the old name is gone and the new name has its content.
\<close>

definition rename ::
  "os_env \<Rightarrow> (rune list \<rightharpoonup> rune list) \<Rightarrow> rune list \<Rightarrow> rune list \<Rightarrow>
   os_error + (rune list \<rightharpoonup> rune list)" where
  "rename env d oldpath newpath =
     (case fault_rename env of
        Some e \<Rightarrow> Inl e
      | None \<Rightarrow>
          (case d oldpath of
             None \<Rightarrow> Inl ENOENT
           | Some c \<Rightarrow> Inr ((d(oldpath := None))(newpath \<mapsto> c))))"

text \<open>\<^verbatim>\<open>fs.log\<close>: the write to the log file; its error is dropped, so nothing is written
  once the file is closed.\<close>

definition log :: "world \<Rightarrow> log_msg \<Rightarrow> world" where
  "log s m = (if logw_closed s then s else s\<lparr>logw := logw s @ [m]\<rparr>)"

definition Log :: "world \<Rightarrow> rune list \<Rightarrow> world" where
  "Log s str = (if fs_open s < 0 then s else log s (Log_text str))"

definition Lock :: "world \<Rightarrow> (error + unit) \<times> world" where
  "Lock s =
     (if fs_open s < 0 then (Inl ErrClosed, s)
      else if slock s then (Inl ErrLocked, s)
      else (Inr (), s\<lparr>slock := True\<rparr>))"

text \<open>The zero value \<^verbatim>\<open>&file{fs: fs}\<close>.\<close>

definition zero_file :: File where
  "zero_file = \<lparr>f_num = 0, f_t = TypeOther, f_open = False\<rparr>"

text \<open>\<^verbatim>\<open>GetFile\<close> allocates a new object on every call and returns its address.\<close>

definition GetFile :: "world \<Rightarrow> 64 word \<Rightarrow> FileType \<Rightarrow> nat \<times> world" where
  "GetFile s num t =
     (length (heap s), s\<lparr>heap := heap s @ [\<lparr>f_num = num, f_t = t, f_open = False\<rparr>]\<rparr>)"

text \<open>
  The loop of \<^verbatim>\<open>GetFiles\<close>: \<open>f\<close> is the object that the next name is parsed into,
  \<open>ff\<close> the objects kept. Modelled from the spec: the mask is the list of kinds it
  holds, and \<^verbatim>\<open>f.t&t != 0\<close> says that the kind is one of them.
\<close>

fun GetFiles_loop :: "FileType list \<Rightarrow> File \<Rightarrow> rune list list \<Rightarrow> File list \<Rightarrow> File list" where
  "GetFiles_loop t f [] ff = ff"
| "GetFiles_loop t f (fn # fnn) ff =
     (case parse f fn of
        (ok, f') \<Rightarrow>
          if ok \<and> f_t f' \<in> set t then GetFiles_loop t zero_file fnn (ff @ [f'])
          else GetFiles_loop t f' fnn ff)"

definition GetFiles :: "world \<Rightarrow> FileType list \<Rightarrow> os_env \<Rightarrow> (error + nat list) \<times> world" where
  "GetFiles s t env =
     (if fs_open s < 0 then (Inl ErrClosed, s)
      else (case fault_open env of
              Some e \<Rightarrow> (Inl (OSError e), s)
            | None \<Rightarrow>
                (let s1 = (case fault_close env of
                             Some e \<Rightarrow> log s (Log_close_dir (OSError e))
                           | None \<Rightarrow> s)
                 in case fault_read env of
                      Some e \<Rightarrow> (Inl (OSError e), s1)
                    | None \<Rightarrow>
                        (let ff = GetFiles_loop t zero_file (readdirnames env) []
                         in (Inr [length (heap s1) ..< length (heap s1) + length ff],
                             s1\<lparr>heap := heap s1 @ ff\<rparr>)))))"

definition CURRENT :: "rune list" where
  "CURRENT = runes ''CURRENT''"

text \<open>
  \<^verbatim>\<open>GetManifest\<close>. The content \<^verbatim>\<open>b\<close> is the rune sequence of the file: its last byte
  is a newline exactly when its last rune is, and the text before that byte is the
  runes before that rune. The deferred close of the file logs its failure.
\<close>

definition GetManifest :: "world \<Rightarrow> os_env \<Rightarrow> (error + nat) \<times> world" where
  "GetManifest s env =
     (if fs_open s < 0 then (Inl ErrClosed, s)
      else (case os_OpenFile_RDONLY env (dir s) CURRENT of
              Inl e \<Rightarrow> (Inl (OSError e), s)
            | Inr r \<Rightarrow>
                (let s1 = (case fault_close env of
                             Some e \<Rightarrow> log s (Log_close_CURRENT (OSError e))
                           | None \<Rightarrow> s)
                 in case fault_read env of
                      Some e \<Rightarrow> (Inl (OSError e), s1)
                    | None \<Rightarrow>
                        (case dir s CURRENT of
                           None \<Rightarrow> (Inl (OSError ENOENT), s1)
                         | Some b \<Rightarrow>
                             if length b < 1 \<or> last b \<noteq> 10 \<or> \<not> fst (parse zero_file (butlast b))
                             then (Inl errInvalidCURRENT, s1)
                             else (Inr (length (heap s1)),
                                   s1\<lparr>heap := heap s1 @ [snd (parse zero_file (butlast b))]\<rparr>)))))"

text \<open>
  \<^verbatim>\<open>SetManifest\<close>. The deferred calls run when the function returns, the last one
  deferred first: \<^verbatim>\<open>w.Close()\<close>, which logs its failure, then the log of the
  returned error. The type assertion \<^verbatim>\<open>f.(*file)\<close> fails for an argument that is
  no object of the heap; \<^verbatim>\<open>"%s.%d"\<close> prints the number without padding, which gives
  the name \<open>tmp_name\<close> of the temporary file.
\<close>

definition tmp_name :: "64 word \<Rightarrow> rune list" where
  "tmp_name n = CURRENT @ runes ''.'' @ decimal (unat n)"

definition SetManifest_return :: "world \<Rightarrow> os_env \<Rightarrow> 64 word \<Rightarrow> error option \<Rightarrow> world" where
  "SetManifest_return s env num err =
     (let s1 = (case fault_close env of
                  Some e \<Rightarrow> log s (Log_close_CURRENT_tmp num (OSError e))
                | None \<Rightarrow> s)
      in case err of Some e \<Rightarrow> log s1 (Log_CURRENT e) | None \<Rightarrow> s1)"

definition SetManifest :: "world \<Rightarrow> nat \<Rightarrow> os_env \<Rightarrow> error option outcome \<times> world" where
  "SetManifest s a env =
     (if fs_open s < 0 then (Returns (Some ErrClosed), s)
      else if length (heap s) \<le> a then (Returns (Some ErrInvalidFile), s)
      else if f_t (heap s ! a) \<noteq> TypeManifest then (Returns (Some ErrInvalidFile), s)
      else
        (let f2 = heap s ! a; path = tmp_name (f_num f2)
         in case os_OpenFile_CREATE env (dir s) path of
              Inl e \<Rightarrow> (Returns (Some (OSError e)), log s (Log_CURRENT (OSError e)))
            | Inr d1 \<Rightarrow>
                (case name f2 of
                   Panics p \<Rightarrow>
                     (Panics p, SetManifest_return (s\<lparr>dir := d1\<rparr>) env (f_num f2) None)
                 | Returns nm \<Rightarrow>
                     (case os_Write env d1 path (nm @ [10]) of
                        Inl e \<Rightarrow>
                          (Returns (Some (OSError e)),
                           SetManifest_return (s\<lparr>dir := d1\<rparr>) env (f_num f2) (Some (OSError e)))
                      | Inr d2 \<Rightarrow>
                          (case rename env d2 path CURRENT of
                             Inl e \<Rightarrow>
                               (Returns (Some (OSError e)),
                                SetManifest_return (s\<lparr>dir := d2\<rparr>) env (f_num f2)
                                  (Some (OSError e)))
                           | Inr d3 \<Rightarrow>
                               (Returns None,
                                SetManifest_return (s\<lparr>dir := d3\<rparr>) env (f_num f2) None))))))"

text \<open>
  \<^verbatim>\<open>Close\<close>. Modelled from the spec: \<^verbatim>\<open>flock.release\<close> is declared in the platform
  files; a release that succeeds gives the process lock up. Closing the log file
  closes it also when the call reports an error.
\<close>

definition Close :: "world \<Rightarrow> os_env \<Rightarrow> error option \<times> world" where
  "Close s env =
     (if fs_open s < 0 then (Some ErrClosed, s)
      else if 0 < fs_open s then
        (Some (errFilesStillOpen (fs_open s)), log s (Log_refuse_to_close (fs_open s)))
      else
        (let e1 = fault_logw_close env;
             err = fault_release env;
             s' = s\<lparr>fs_open := - 1, logw_closed := True,
                    flock_held := (flock_held s \<and> err \<noteq> None)\<rparr>
         in (case err of
               None \<Rightarrow> map_option OSError e1
             | Some e \<Rightarrow> Some (OSError e),
             s')))"

text \<open>\<^verbatim>\<open>fileWrap{*os.File, f}\<close>: the name the file was opened under and the object.\<close>

record fileWrap =
  fw_File :: "rune list"
  fw_f :: nat

definition nil_dereference :: string where
  "nil_dereference = ''invalid memory address or nil pointer dereference''"

definition fileWrap_Close :: "world \<Rightarrow> fileWrap \<Rightarrow> os_env \<Rightarrow> error option outcome \<times> world" where
  "fileWrap_Close s fw env =
     (if length (heap s) \<le> fw_f fw then (Panics nil_dereference, s)
      else
        (let f = heap s ! fw_f fw in
         if \<not> f_open f then (Returns (Some ErrClosed), s)
         else
           (let s1 = s\<lparr>heap := (heap s)[fw_f fw := f\<lparr>f_open := False\<rparr>],
                       fs_open := fs_open s - 1\<rparr>
            in case fault_close env of
                 Some e \<Rightarrow>
                   (Returns (Some (OSError e)),
                    log s1 (Log_close_file (f_t f) (f_num f) (OSError e)))
               | None \<Rightarrow> (Returns None, s1))))"

definition Open :: "world \<Rightarrow> nat \<Rightarrow> os_env \<Rightarrow> (error + fileWrap) outcome \<times> world" where
  "Open s a env =
     (if length (heap s) \<le> a then (Panics nil_dereference, s)
      else
        (let f = heap s ! a in
         if fs_open s < 0 then (Returns (Inl ErrClosed), s)
         else if f_open f then (Returns (Inl errFileOpen), s)
         else (case name f of
                 Panics p \<Rightarrow> (Panics p, s)
               | Returns nm \<Rightarrow>
                   (case os_OpenFile_RDONLY env (dir s) nm of
                      Inl e \<Rightarrow> (Returns (Inl (OSError e)), s)
                    | Inr r \<Rightarrow>
                        (Returns (Inr \<lparr>fw_File = nm, fw_f = a\<rparr>),
                         s\<lparr>heap := (heap s)[a := f\<lparr>f_open := True\<rparr>],
                           fs_open := fs_open s + 1\<rparr>)))))"

definition Create :: "world \<Rightarrow> nat \<Rightarrow> os_env \<Rightarrow> (error + fileWrap) outcome \<times> world" where
  "Create s a env =
     (if length (heap s) \<le> a then (Panics nil_dereference, s)
      else
        (let f = heap s ! a in
         if fs_open s < 0 then (Returns (Inl ErrClosed), s)
         else if f_open f then (Returns (Inl errFileOpen), s)
         else (case name f of
                 Panics p \<Rightarrow> (Panics p, s)
               | Returns nm \<Rightarrow>
                   (case os_OpenFile_CREATE env (dir s) nm of
                      Inl e \<Rightarrow> (Returns (Inl (OSError e)), s)
                    | Inr d1 \<Rightarrow>
                        (Returns (Inr \<lparr>fw_File = nm, fw_f = a\<rparr>),
                         s\<lparr>heap := (heap s)[a := f\<lparr>f_open := True\<rparr>],
                           fs_open := fs_open s + 1, dir := d1\<rparr>)))))"

definition Remove :: "world \<Rightarrow> nat \<Rightarrow> os_env \<Rightarrow> error option outcome \<times> world" where
  "Remove s a env =
     (if length (heap s) \<le> a then (Panics nil_dereference, s)
      else
        (let f = heap s ! a in
         if fs_open s < 0 then (Returns (Some ErrClosed), s)
         else if f_open f then (Returns (Some errFileOpen), s)
         else (case name f of
                 Panics p \<Rightarrow> (Panics p, s)
               | Returns nm \<Rightarrow>
                   (case os_Remove env (dir s) nm of
                      Inl e \<Rightarrow>
                        (Returns (Some (OSError e)),
                         log s (Log_remove_file (f_t f) (f_num f) (OSError e)))
                    | Inr d1 \<Rightarrow> (Returns None, s\<lparr>dir := d1\<rparr>)))))"

section \<open>Sequences of calls\<close>

text \<open>
  A call of one operation of the storage with its arguments and the answer of the
  operating system; \<open>after\<close> is the state that the call leaves, \<open>run\<close> the state after
  a list of calls, the first one first.
\<close>

datatype call =
    Call_Lock
  | Call_Log "rune list"
  | Call_GetFile "64 word" FileType
  | Call_GetFiles "FileType list" os_env
  | Call_GetManifest os_env
  | Call_SetManifest nat os_env
  | Call_Close os_env
  | Call_Open nat os_env
  | Call_Create nat os_env
  | Call_Remove nat os_env
  | Call_fileWrap_Close fileWrap os_env

fun after :: "world \<Rightarrow> call \<Rightarrow> world" where
  "after s Call_Lock = snd (Lock s)"
| "after s (Call_Log str) = Log s str"
| "after s (Call_GetFile num t) = snd (GetFile s num t)"
| "after s (Call_GetFiles t env) = snd (GetFiles s t env)"
| "after s (Call_GetManifest env) = snd (GetManifest s env)"
| "after s (Call_SetManifest a env) = snd (SetManifest s a env)"
| "after s (Call_Close env) = snd (Close s env)"
| "after s (Call_Open a env) = snd (Open s a env)"
| "after s (Call_Create a env) = snd (Create s a env)"
| "after s (Call_Remove a env) = snd (Remove s a env)"
| "after s (Call_fileWrap_Close fw env) = snd (fileWrap_Close s fw env)"

definition run :: "world \<Rightarrow> call list \<Rightarrow> world" where
  "run s cs = foldl after s cs"

text \<open>The calls that close a handle of the object at the address \<open>a\<close>.\<close>

fun closes :: "nat \<Rightarrow> call \<Rightarrow> bool" where
  "closes a (Call_fileWrap_Close fw env) = (fw_f fw = a)"
| "closes a c = False"

text \<open>
  The invariant of the counter: while the storage is active it is the number of
  objects whose open flag is set; once it is negative no flag is set.
\<close>

definition counted :: "world \<Rightarrow> bool" where
  "counted s \<longleftrightarrow>
     fs_open s = int (length (filter f_open (heap s))) \<or>
     (fs_open s < 0 \<and> filter f_open (heap s) = [])"

section \<open>Inputs for the closed theorems\<close>

text \<open>
  The storage as \<^verbatim>\<open>OpenFile\<close> returns it for a directory with the content \<open>d\<close>: the
  process lock held, the log open, no file opened.
\<close>

definition new_storage :: "(rune list \<rightharpoonup> rune list) \<Rightarrow> world" where
  "new_storage d =
     \<lparr>flock_held = True, slock = False, logw = [], logw_closed = False, fs_open = 0,
      heap = [], dir = d\<rparr>"

text \<open>7 May 2013, 12:34:56 and 789123 nanoseconds.\<close>

definition a_time :: Time where
  "a_time =
     \<lparr>date_year = 2013, date_month = 5, date_day = 7, clock_hour = 12, clock_min = 34,
      clock_sec = 56, nanosecond = 789123\<rparr>"

text \<open>
  A directory with the table file 1, and the storage opened on it after two calls
  \<^verbatim>\<open>GetFile(1, TypeTable)\<close>: the objects at the addresses 0 and 1 hold the same
  kind and number.
\<close>

definition table_dir :: "rune list \<rightharpoonup> rune list" where
  "table_dir = [runes ''000001.sst'' \<mapsto> runes ''data'']"

definition two_objects :: world where
  "two_objects = snd (GetFile (snd (GetFile (new_storage table_dir) 1 TypeTable)) 1 TypeTable)"

text \<open>The same storage after \<^verbatim>\<open>Open\<close> on the object 0, and the handle that call returns.\<close>

definition one_opened :: world where
  "one_opened = snd (Open two_objects 0 no_faults)"

definition table_handle :: fileWrap where
  "table_handle = \<lparr>fw_File = runes ''000001.sst'', fw_f = 0\<rparr>"

text \<open>
  A storage on an empty directory with the objects \<^verbatim>\<open>GetFile(7, TypeManifest)\<close> at
  address 0 and \<^verbatim>\<open>GetFile(7, TypeJournal)\<close> at address 1.
\<close>

definition kinds_world :: world where
  "kinds_world = snd (GetFile (snd (GetFile (new_storage Map.empty) 7 TypeManifest)) 7 TypeJournal)"

text \<open>Operating systems that refuse one call.\<close>

definition rename_fails :: os_env where
  "rename_fails = no_faults\<lparr>fault_rename := Some (EOther 5)\<rparr>"

definition remove_fails :: os_env where
  "remove_fails = no_faults\<lparr>fault_remove := Some (EOther 13)\<rparr>"

definition open_fails :: os_env where
  "open_fails = no_faults\<lparr>fault_open := Some (EOther 13)\<rparr>"

text \<open>The value of a run of decimal digits after the value \<open>a\<close>.\<close>

definition dval :: "nat \<Rightarrow> rune list \<Rightarrow> nat" where
  "dval a ds = foldl (\<lambda>n c. n * 10 + (c - 48)) a ds"

section \<open>Facts about printing and scanning\<close>

lemma decimal_small: "n < 10 \<Longrightarrow> decimal n = [48 + n]"
  by (simp add: decimal.simps)

lemma replicate_5: "replicate 5 x = [x, x, x, x, x]"
  by (simp add: eval_nat_numeral)

lemmas scan_defs =
  parse_def Sscanf_def fmt_d_dot_s_def fmt_MANIFEST_d_s_def runes_def scanUint_def
  scanNumber_def accepted_def isDigit_def isSpace_def ParseUint_def convertString_def

lemma dval_simps [simp]:
  "dval a [] = a" "dval a (c # cs) = dval (a * 10 + (c - 48)) cs"
  "dval a (xs @ ys) = dval (dval a xs) ys"
  by (simp_all add: dval_def)

lemma dval_ge: "a \<le> dval a ds"
proof (induction ds arbitrary: a)
  case Nil
  show ?case by simp
next
  case (Cons c cs)
  have "a \<le> a * 10 + (c - 48)" by simp
  also have "\<dots> \<le> dval (a * 10 + (c - 48)) cs" by (rule Cons.IH)
  finally show ?case by simp
qed

lemma ParseUint_from_digits:
  "list_all isDigit ds \<Longrightarrow> dval a ds < 18446744073709551616 \<Longrightarrow>
   ParseUint_from a ds = Inr (dval a ds)"
proof (induction ds arbitrary: a)
  case Nil
  show ?case by simp
next
  case (Cons c cs)
  have "a * 10 + (c - 48) \<le> dval (a * 10 + (c - 48)) cs" by (rule dval_ge)
  with Cons.prems have small: "a * 10 + (c - 48) < 18446744073709551616" by simp
  from Cons.prems have "ParseUint_from (a * 10 + (c - 48)) cs = Inr (dval (a * 10 + (c - 48)) cs)"
    by (intro Cons.IH) simp_all
  with Cons.prems small show ?case by simp
qed

lemma ParseUint_from_Inr_digits:
  "ParseUint_from a ds = Inr v \<Longrightarrow> list_all isDigit ds"
  by (induction ds arbitrary: a) (auto split: if_splits)

lemma decimal_digits: "list_all isDigit (decimal n)"
proof (induction n rule: decimal.induct)
  case (1 n)
  show ?case
  proof (cases "n < 10")
    case True
    then show ?thesis by (simp add: decimal_small isDigit_def)
  next
    case False
    have "n mod 10 < 10" by simp
    then have "isDigit (48 + n mod 10)" unfolding isDigit_def by linarith
    with False 1 show ?thesis by (subst decimal.simps) simp
  qed
qed

lemma decimal_not_Nil: "decimal n \<noteq> []"
  by (subst decimal.simps) simp

lemma dval_decimal: "dval 0 (decimal n) = n"
proof (induction n rule: decimal.induct)
  case (1 n)
  show ?case
  proof (cases "n < 10")
    case True
    then show ?thesis by (simp add: decimal_small)
  next
    case False
    with 1 have "dval 0 (decimal (n div 10)) = n div 10" by simp
    with False show ?thesis by (subst decimal.simps) simp
  qed
qed

lemma dval_zeros: "dval 0 (replicate k 48) = 0"
  by (induction k) simp_all

lemma Sprintf_06d_digits: "list_all isDigit (Sprintf_06d n)"
  using decimal_digits [of "unat n"]
  by (auto simp: Sprintf_06d_def Let_def list_all_iff isDigit_def)

lemma Sprintf_06d_not_Nil: "Sprintf_06d n \<noteq> []"
  by (simp add: Sprintf_06d_def Let_def decimal_not_Nil)

lemma Sprintf_06d_length: "6 \<le> length (Sprintf_06d n)"
  by (simp add: Sprintf_06d_def Let_def)

lemma dval_Sprintf_06d: "dval 0 (Sprintf_06d n) = unat n"
  by (simp add: Sprintf_06d_def Let_def dval_zeros dval_decimal)

lemma ParseUint_Sprintf_06d: "ParseUint (Sprintf_06d n) = Inr n"
proof -
  have "unat n < 2 ^ 64" using unsigned_less [of n, where 'a = nat] by simp
  then have "dval 0 (Sprintf_06d n) < 18446744073709551616"
    by (simp add: dval_Sprintf_06d)
  then have "ParseUint_from 0 (Sprintf_06d n) = Inr (unat n)"
    using ParseUint_from_digits [OF Sprintf_06d_digits, of 0 n] by (simp add: dval_Sprintf_06d)
  then show ?thesis by (simp add: ParseUint_def Sprintf_06d_not_Nil)
qed

lemma digits_accepted: "list_all isDigit ds \<Longrightarrow> list_all accepted ds"
  by (induction ds) (simp_all add: accepted_def)

lemma takeWhile_all: "list_all P ds \<Longrightarrow> \<not> P c \<Longrightarrow> takeWhile P (ds @ c # rest) = ds"
  by (induction ds) simp_all

lemma dropWhile_all: "list_all P ds \<Longrightarrow> \<not> P c \<Longrightarrow> dropWhile P (ds @ c # rest) = c # rest"
  by (induction ds) simp_all

lemma takeWhile_all_end: "list_all P ds \<Longrightarrow> takeWhile P ds = ds"
  by (induction ds) simp_all

lemma dropWhile_all_end: "list_all P ds \<Longrightarrow> dropWhile P ds = []"
  by (induction ds) simp_all

lemma SkipSpace_nonspace: "\<not> isSpace r \<Longrightarrow> SkipSpace (r # rs) = Inr (r # rs)"
  by (auto simp: isSpace_def)

lemma digit_not_space: "isDigit r \<Longrightarrow> \<not> isSpace r"
  by (auto simp: isDigit_def isSpace_def)

lemma SkipSpace_digits: "list_all isDigit ds \<Longrightarrow> ds \<noteq> [] \<Longrightarrow> SkipSpace (ds @ rest) = Inr (ds @ rest)"
  by (cases ds) (auto simp: digit_not_space isDigit_def)

lemma scanUint_digits_then:
  assumes "list_all isDigit ds" "ds \<noteq> []" "\<not> accepted c"
  shows "scanUint (ds @ c # rest) = (case ParseUint ds of Inl e \<Rightarrow> Inl e | Inr v \<Rightarrow> Inr (v, c # rest))"
  using assms
  by (simp add: scanUint_def SkipSpace_digits scanNumber_def takeWhile_all dropWhile_all digits_accepted)

lemma scanUint_digits_end:
  assumes "list_all isDigit ds" "ds \<noteq> []"
  shows "scanUint ds = (case ParseUint ds of Inl e \<Rightarrow> Inl e | Inr v \<Rightarrow> Inr (v, []))"
  using assms SkipSpace_digits [of ds "[]"]
  by (simp add: scanUint_def scanNumber_def takeWhile_all_end dropWhile_all_end digits_accepted)

lemma parse_journal: "parse g (Sprintf_06d n @ runes ''.log'') = (True, g\<lparr>f_t := TypeJournal, f_num := n\<rparr>)"
proof -
  have a: "\<not> accepted 46" by (simp add: accepted_def isDigit_def)
  have "scanUint (Sprintf_06d n @ 46 # runes ''log'') = Inr (n, 46 # runes ''log'')"
    using scanUint_digits_then [OF Sprintf_06d_digits Sprintf_06d_not_Nil a]
    by (simp add: ParseUint_Sprintf_06d)
  moreover have "convertString (runes ''log'') = Inr (runes ''log'', [])"
    by (simp add: convertString_def runes_def isSpace_def)
  moreover have "SkipSpace (runes ''log'') = Inr (runes ''log'')"
    by (simp add: runes_def isSpace_def)
  moreover have "Sprintf_06d n @ runes ''.log'' = Sprintf_06d n @ 46 # runes ''log''"
    by (simp add: runes_def)
  ultimately show ?thesis
    using SkipSpace_digits [OF Sprintf_06d_digits Sprintf_06d_not_Nil]
    by (simp add: parse_def Sscanf_def fmt_d_dot_s_def) (simp add: runes_def)
qed


lemma parse_table: "parse g (Sprintf_06d n @ runes ''.sst'') = (True, g\<lparr>f_t := TypeTable, f_num := n\<rparr>)"
proof -
  have a: "\<not> accepted 46" by (simp add: accepted_def isDigit_def)
  have "scanUint (Sprintf_06d n @ 46 # runes ''sst'') = Inr (n, 46 # runes ''sst'')"
    using scanUint_digits_then [OF Sprintf_06d_digits Sprintf_06d_not_Nil a]
    by (simp add: ParseUint_Sprintf_06d)
  moreover have "convertString (runes ''sst'') = Inr (runes ''sst'', [])"
    by (simp add: convertString_def runes_def isSpace_def)
  moreover have "SkipSpace (runes ''sst'') = Inr (runes ''sst'')"
    by (simp add: runes_def isSpace_def)
  moreover have "Sprintf_06d n @ runes ''.sst'' = Sprintf_06d n @ 46 # runes ''sst''"
    by (simp add: runes_def)
  ultimately show ?thesis
    using SkipSpace_digits [OF Sprintf_06d_digits Sprintf_06d_not_Nil]
    by (simp add: parse_def Sscanf_def fmt_d_dot_s_def) (simp add: runes_def)
qed

lemma advance_append: "advance l (l @ rest) = Inr rest"
  by (induction l) simp_all

lemma first_scan_M: "\<exists>e. Sscanf (77 # rest) fmt_d_dot_s = ([], Some e)"
  by (simp add: Sscanf_def fmt_d_dot_s_def scanUint_def scanNumber_def accepted_def isDigit_def isSpace_def)

lemma parse_manifest: "parse g (runes ''MANIFEST-'' @ Sprintf_06d n) = (True, g\<lparr>f_t := TypeManifest, f_num := n\<rparr>)"
proof -
  obtain e where e: "Sscanf (runes ''MANIFEST-'' @ Sprintf_06d n) fmt_d_dot_s = ([], Some e)"
    using first_scan_M [of "runes ''ANIFEST-'' @ Sprintf_06d n"] by (auto simp: runes_def)
  have "scanUint (Sprintf_06d n) = Inr (n, [])"
    using scanUint_digits_end [OF Sprintf_06d_digits Sprintf_06d_not_Nil]
    by (simp add: ParseUint_Sprintf_06d)
  moreover have "SkipSpace (Sprintf_06d n) = Inr (Sprintf_06d n)"
    using SkipSpace_digits [OF Sprintf_06d_digits Sprintf_06d_not_Nil, where rest = "[]"] by simp
  ultimately have "Sscanf (runes ''MANIFEST-'' @ Sprintf_06d n) fmt_MANIFEST_d_s = ([U64 n], Some EOF)"
    by (simp add: Sscanf_def fmt_MANIFEST_d_s_def advance_append convertString_def)
  with e show ?thesis by (simp add: parse_def)
qed

section \<open>The name codec: claims\<close>

text \<open>
  C3. For every descriptor whose kind is Journal, Table or Manifest and every 64-bit
  sequence number, \<open>name\<close> returns a file name, and \<open>parse\<close> of that name succeeds and
  stores exactly the kind and the number, whatever the object parsed into held before.
  The number is printed with at least six runes, all of them decimal digits, and
  reading the digits back gives the number itself: zeros are put in front, nothing is
  cut off.
\<close>

theorem name_parse_roundtrip:
  assumes "f_t f \<in> {TypeJournal, TypeTable, TypeManifest}"
  shows "(case name f of
            Panics p \<Rightarrow> False
          | Returns nm \<Rightarrow> parse g nm = (True, g\<lparr>f_t := f_t f, f_num := f_num f\<rparr>)) \<and>
         6 \<le> length (Sprintf_06d (f_num f)) \<and>
         list_all isDigit (Sprintf_06d (f_num f)) \<and>
         ParseUint (Sprintf_06d (f_num f)) = Inr (f_num f)"
proof -
  have "case name f of
          Panics p \<Rightarrow> False
        | Returns nm \<Rightarrow> parse g nm = (True, g\<lparr>f_t := f_t f, f_num := f_num f\<rparr>)"
  proof (cases "f_t f")
    case TypeManifest
    then show ?thesis by (simp add: name_def parse_manifest)
  next
    case TypeJournal
    then show ?thesis by (simp add: name_def parse_journal)
  next
    case TypeTable
    then show ?thesis by (simp add: name_def parse_table)
  next
    case TypeOther
    with assms show ?thesis by simp
  qed
  then show ?thesis
    by (simp add: Sprintf_06d_length Sprintf_06d_digits ParseUint_Sprintf_06d)
qed

theorem name_parse_roundtrip_witness:
  "TypeTable \<in> {TypeJournal, TypeTable, TypeManifest} \<and>
   name \<lparr>f_num = 1234567, f_t = TypeTable, f_open = False\<rparr> = Returns (runes ''1234567.sst'') \<and>
   parse zero_file (runes ''1234567.sst'') =
     (True, zero_file\<lparr>f_t := TypeTable, f_num := 1234567\<rparr>) \<and>
   name \<lparr>f_num = 0, f_t = TypeManifest, f_open = False\<rparr> = Returns (runes ''MANIFEST-000000'') \<and>
   parse zero_file (runes ''MANIFEST-000000'') =
     (True, zero_file\<lparr>f_t := TypeManifest, f_num := 0\<rparr>)"
proof -
  have n1: "name \<lparr>f_num = 1234567, f_t = TypeTable, f_open = False\<rparr> = Returns (runes ''1234567.sst'')"
    by (simp add: name_def Sprintf_06d_def decimal.simps runes_def)
  have "decimal (unat (0::64 word)) = [48]" by (simp add: decimal_small)
  then have n2: "name \<lparr>f_num = 0, f_t = TypeManifest, f_open = False\<rparr> = Returns (runes ''MANIFEST-000000'')"
    by (simp add: name_def Sprintf_06d_def replicate_5 runes_def)
  show ?thesis
    using name_parse_roundtrip [of "\<lparr>f_num = 1234567, f_t = TypeTable, f_open = False\<rparr>" zero_file]
      name_parse_roundtrip [of "\<lparr>f_num = 0, f_t = TypeManifest, f_open = False\<rparr>" zero_file]
    by (simp add: n1 n2)
qed

text \<open>
  C7. The name \<^verbatim>\<open>000001.log x\<close> is a journal name followed by a space and more text.
  It matches none of the three patterns, yet \<open>parse\<close> returns true for it with the
  journal descriptor 1: \<^verbatim>\<open>%s\<close> stops at the white space and \<^verbatim>\<open>Sscanf\<close> does not ask
  that the input is used up.
\<close>

theorem parse_accepts_trailing_text:
  "parse zero_file (runes ''000001.log x'') = (True, zero_file\<lparr>f_t := TypeJournal, f_num := 1\<rparr>)"
  by (simp add: scan_defs zero_file_def)

text \<open>
  C8. \<open>name\<close> panics with \<^verbatim>\<open>invalid file type\<close> exactly for the descriptors whose kind
  is none of Journal, Table and Manifest, whatever the sequence number; the panic is
  an outcome of its own, not a value that \<open>Returns\<close> carries.
\<close>

theorem name_panics_on_other_kind:
  "(name f = Panics ''invalid file type'') = (f_t f \<notin> {TypeJournal, TypeTable, TypeManifest})"
  by (cases "f_t f") (simp_all add: name_def)

section \<open>The manifest pointer: claims\<close>

text \<open>
  C2. With the content \<^verbatim>\<open>000001.log\<close> and a newline in \<^verbatim>\<open>CURRENT\<close>, \<open>GetManifest\<close>
  returns no error: it returns a new object that holds the journal descriptor 1. The
  test of the content asks only whether \<open>parse\<close> succeeds, never for the kind.
\<close>

theorem GetManifest_returns_journal:
  "GetManifest (new_storage [CURRENT \<mapsto> runes ''000001.log'' @ [10]]) no_faults =
     (Inr 0,
      new_storage [CURRENT \<mapsto> runes ''000001.log'' @ [10]]
        \<lparr>heap := [\<lparr>f_num = 1, f_t = TypeJournal, f_open = False\<rparr>]\<rparr>)"
  by (simp add: GetManifest_def new_storage_def no_faults_def os_OpenFile_RDONLY_def
      CURRENT_def zero_file_def scan_defs)

text \<open>The same run, read off: no error, and the object returned is of the journal kind.\<close>

theorem GetManifest_returns_journal_witness:
  "fst (GetManifest (new_storage [CURRENT \<mapsto> runes ''000001.log'' @ [10]]) no_faults) = Inr 0 \<and>
   f_t (heap (snd (GetManifest (new_storage [CURRENT \<mapsto> runes ''000001.log'' @ [10]])
                     no_faults)) ! 0) = TypeJournal"
  using GetManifest_returns_journal by simp

section \<open>The diagnostic log: claims\<close>

text \<open>
  C9. For 7 May 2013, 12:34:56.000789 and the message \<^verbatim>\<open>x\<close>, \<open>doLog\<close> writes the line
  \<^verbatim>\<open>2013/05/0007 12:34:56.000789 x\<close>: the day is padded to four digits, as the year is,
  not to two.
\<close>

theorem doLog_day_has_four_digits:
  "doLog a_time (runes ''x'') = Returns (runes ''2013/05/0007 12:34:56.000789 x'' @ [10])"
  by code_simp

section \<open>Facts about the storage\<close>

lemma log_fields [simp]:
  "heap (log s m) = heap s" "fs_open (log s m) = fs_open s" "dir (log s m) = dir s"
  "flock_held (log s m) = flock_held s" "logw_closed (log s m) = logw_closed s"
  "slock (log s m) = slock s"
  by (simp_all add: log_def)

lemma name_f_open [simp]: "name (f\<lparr>f_open := b\<rparr>) = name f"
  by (cases "f_t f") (simp_all add: name_def)

lemma Open_closed: "a < length (heap s) \<Longrightarrow> fs_open s < 0 \<Longrightarrow> Open s a env = (Returns (Inl ErrClosed), s)"
  by (simp add: Open_def)

lemma Create_closed: "a < length (heap s) \<Longrightarrow> fs_open s < 0 \<Longrightarrow> Create s a env = (Returns (Inl ErrClosed), s)"
  by (simp add: Create_def)

lemma Remove_closed: "a < length (heap s) \<Longrightarrow> fs_open s < 0 \<Longrightarrow> Remove s a env = (Returns (Some ErrClosed), s)"
  by (simp add: Remove_def)

lemma Open_flagged:
  "a < length (heap s) \<Longrightarrow> 0 \<le> fs_open s \<Longrightarrow> f_open (heap s ! a) \<Longrightarrow>
   Open s a env = (Returns (Inl errFileOpen), s)"
  by (simp add: Open_def)

lemma Create_flagged:
  "a < length (heap s) \<Longrightarrow> 0 \<le> fs_open s \<Longrightarrow> f_open (heap s ! a) \<Longrightarrow>
   Create s a env = (Returns (Inl errFileOpen), s)"
  by (simp add: Create_def)

lemma Open_cases:
  "(case Open s a env of
      (Returns (Inr h), s') \<Rightarrow>
        a < length (heap s) \<and> 0 \<le> fs_open s \<and> \<not> f_open (heap s ! a) \<and> fw_f h = a \<and>
        name (heap s ! a) = Returns (fw_File h) \<and>
        s' = s\<lparr>heap := (heap s)[a := (heap s ! a)\<lparr>f_open := True\<rparr>], fs_open := fs_open s + 1\<rparr>
    | (Returns (Inl e), s') \<Rightarrow> s' = s
    | (Panics p, s') \<Rightarrow> s' = s)"
  by (simp add: Open_def Let_def split: outcome.split sum.split)

lemma Create_cases:
  "(case Create s a env of
      (Returns (Inr h), s') \<Rightarrow>
        a < length (heap s) \<and> 0 \<le> fs_open s \<and> \<not> f_open (heap s ! a) \<and> fw_f h = a \<and>
        name (heap s ! a) = Returns (fw_File h) \<and>
        s' = s\<lparr>heap := (heap s)[a := (heap s ! a)\<lparr>f_open := True\<rparr>], fs_open := fs_open s + 1,
               dir := (dir s)(fw_File h \<mapsto> [])\<rparr>
    | (Returns (Inl e), s') \<Rightarrow> s' = s
    | (Panics p, s') \<Rightarrow> s' = s)"
  by (simp add: Create_def Let_def os_OpenFile_CREATE_def split: outcome.split sum.split option.split)

lemma fileWrap_Close_flagged:
  assumes "fw_f h < length (heap s)" "f_open (heap s ! fw_f h)"
  shows "fileWrap_Close s h env =
     (Returns (map_option OSError (fault_close env)),
      (case fault_close env of
         Some e \<Rightarrow> log (s\<lparr>heap := (heap s)[fw_f h := (heap s ! fw_f h)\<lparr>f_open := False\<rparr>],
                           fs_open := fs_open s - 1\<rparr>)
                     (Log_close_file (f_t (heap s ! fw_f h)) (f_num (heap s ! fw_f h)) (OSError e))
       | None \<Rightarrow> s\<lparr>heap := (heap s)[fw_f h := (heap s ! fw_f h)\<lparr>f_open := False\<rparr>],
                    fs_open := fs_open s - 1\<rparr>))"
  using assms by (simp add: fileWrap_Close_def Let_def split: option.split)

lemma Remove_flagged:
  "a < length (heap s) \<Longrightarrow> 0 \<le> fs_open s \<Longrightarrow> f_open (heap s ! a) \<Longrightarrow>
   Remove s a env = (Returns (Some errFileOpen), s)"
  by (simp add: Remove_def)

lemma Remove_not_flagged:
  assumes "a < length (heap s)" "0 \<le> fs_open s" "\<not> f_open (heap s ! a)"
    and "name (heap s ! a) = Returns nm"
  shows "Remove s a env =
     (case os_Remove env (dir s) nm of
        Inl e \<Rightarrow> (Returns (Some (OSError e)),
                  log s (Log_remove_file (f_t (heap s ! a)) (f_num (heap s ! a)) (OSError e)))
      | Inr d1 \<Rightarrow> (Returns None, s\<lparr>dir := d1\<rparr>))"
  using assms by (simp add: Remove_def Let_def)

lemma Close_refuses:
  "0 < fs_open s \<Longrightarrow>
   Close s env = (Some (errFilesStillOpen (fs_open s)), log s (Log_refuse_to_close (fs_open s)))"
  by (simp add: Close_def)

lemma Close_closes:
  "fs_open s = 0 \<Longrightarrow>
   Close s env =
     (case fault_release env of
        None \<Rightarrow> map_option OSError (fault_logw_close env)
      | Some e \<Rightarrow> Some (OSError e),
      s\<lparr>fs_open := - 1, logw_closed := True,
        flock_held := (flock_held s \<and> fault_release env \<noteq> None)\<rparr>)"
  by (simp add: Close_def Let_def)

lemma closed_ops:
  assumes "fs_open s < 0"
  shows "Close s env = (Some ErrClosed, s)"
    and "Lock s = (Inl ErrClosed, s)"
    and "GetFiles s t env = (Inl ErrClosed, s)"
    and "GetManifest s env = (Inl ErrClosed, s)"
    and "SetManifest s a env = (Returns (Some ErrClosed), s)"
    and "Log s str = s"
  using assms
  by (simp_all add: Close_def Lock_def GetFiles_def GetManifest_def SetManifest_def Log_def)

lemma fileWrap_Close_stays_closed:
  "fs_open s < 0 \<Longrightarrow> fs_open (snd (fileWrap_Close s fw env)) < 0"
  by (simp add: fileWrap_Close_def Let_def split: option.split)

lemma SetManifest_return_dir [simp]: "dir (SetManifest_return s env n err) = dir s"
  by (simp add: SetManifest_return_def Let_def split: option.split)

lemma SetManifest_return_fields [simp]:
  "heap (SetManifest_return s env n err) = heap s"
  "fs_open (SetManifest_return s env n err) = fs_open s"
  "flock_held (SetManifest_return s env n err) = flock_held s"
  by (simp_all add: SetManifest_return_def Let_def split: option.split)

lemma SetManifest_wrong_kind:
  "0 \<le> fs_open s \<Longrightarrow> a < length (heap s) \<Longrightarrow> f_t (heap s ! a) \<noteq> TypeManifest \<Longrightarrow>
   SetManifest s a env = (Returns (Some ErrInvalidFile), s)"
  by (simp add: SetManifest_def)

lemma name_manifest:
  "f_t f = TypeManifest \<Longrightarrow> name f = Returns (runes ''MANIFEST-'' @ Sprintf_06d (f_num f))"
  by (simp add: name_def)

lemma SetManifest_manifest:
  assumes "0 \<le> fs_open s" "a < length (heap s)" "f_t (heap s ! a) = TypeManifest"
  defines "n \<equiv> f_num (heap s ! a)"
  defines "tmp \<equiv> tmp_name n"
  defines "line \<equiv> runes ''MANIFEST-'' @ Sprintf_06d n @ [10]"
  shows "SetManifest s a env =
    (case fault_open env of
       Some e \<Rightarrow> (Returns (Some (OSError e)), log s (Log_CURRENT (OSError e)))
     | None \<Rightarrow>
        (case fault_write env of
           Some e \<Rightarrow> (Returns (Some (OSError e)),
                      SetManifest_return (s\<lparr>dir := (dir s)(tmp \<mapsto> [])\<rparr>) env n (Some (OSError e)))
         | None \<Rightarrow>
            (case fault_rename env of
               Some e \<Rightarrow> (Returns (Some (OSError e)),
                          SetManifest_return (s\<lparr>dir := (dir s)(tmp \<mapsto> line)\<rparr>) env n (Some (OSError e)))
             | None \<Rightarrow> (Returns None,
                          SetManifest_return (s\<lparr>dir := (dir s)(tmp := None, CURRENT \<mapsto> line)\<rparr>) env n None))))"
  using assms(1-3) unfolding n_def tmp_def line_def
  by (simp add: SetManifest_def Let_def name_manifest os_OpenFile_CREATE_def os_Write_def rename_def
      split: option.split)

text \<open>
  What \<open>SetManifest\<close> publishes, \<open>GetManifest\<close> reads back: a new object with the
  Manifest kind and the number published.
\<close>

lemma GetManifest_line:
  assumes "0 \<le> fs_open s" and "dir s CURRENT = Some (runes ''MANIFEST-'' @ Sprintf_06d n @ [10])"
    and "fault_open env = None" and "fault_read env = None"
  shows "fst (GetManifest s env) = Inr (length (heap s)) \<and>
         heap (snd (GetManifest s env)) =
           heap s @ [\<lparr>f_num = n, f_t = TypeManifest, f_open = False\<rparr>]"
proof -
  let ?b = "runes ''MANIFEST-'' @ Sprintf_06d n @ [10]"
  have b: "butlast ?b = runes ''MANIFEST-'' @ Sprintf_06d n" "last ?b = 10" "\<not> length ?b < 1"
    by (simp_all add: butlast_append)
  have p: "parse zero_file (runes ''MANIFEST-'' @ Sprintf_06d n) =
      (True, \<lparr>f_num = n, f_t = TypeManifest, f_open = False\<rparr>)"
    by (simp add: parse_manifest zero_file_def)
  show ?thesis
    using assms(1,3,4)
    by (simp add: GetManifest_def os_OpenFile_RDONLY_def assms(2) Let_def b p split: option.split)
qed

lemma GetManifest_after_SetManifest:
  assumes "0 \<le> fs_open s" and "a < length (heap s)" and "f_t (heap s ! a) = TypeManifest"
    and "fst (SetManifest s a env) = Returns None"
    and "fault_open env' = None" and "fault_read env' = None"
  shows "fst (GetManifest (snd (SetManifest s a env)) env') = Inr (length (heap s)) \<and>
         heap (snd (GetManifest (snd (SetManifest s a env)) env')) =
           heap s @ [\<lparr>f_num = f_num (heap s ! a), f_t = TypeManifest, f_open = False\<rparr>]"
proof -
  let ?s' = "snd (SetManifest s a env)"
  note eq = SetManifest_manifest [OF assms(1-3), of env]
  from assms(4) have nf: "fault_open env = None \<and> fault_write env = None \<and> fault_rename env = None"
    by (simp add: eq split: option.splits)
  then have d: "dir ?s' CURRENT = Some (runes ''MANIFEST-'' @ Sprintf_06d (f_num (heap s ! a)) @ [10])"
    and h: "heap ?s' = heap s" and o: "fs_open ?s' = fs_open s"
    by (simp_all add: eq)
  from assms(1) o have "0 \<le> fs_open ?s'" by simp
  from GetManifest_line [OF this d assms(5,6)] show ?thesis by (simp add: h)
qed

text \<open>The counter counts the flags, in every state that calls lead to.\<close>

lemma count_set:
  "a < length xs \<Longrightarrow> \<not> f_open (xs ! a) \<Longrightarrow>
   length (filter f_open (xs[a := (xs ! a)\<lparr>f_open := True\<rparr>])) = Suc (length (filter f_open xs))"
proof (induction xs arbitrary: a)
  case Nil
  then show ?case by simp
next
  case (Cons x xs)
  then show ?case by (cases a) simp_all
qed

lemma count_clear:
  "a < length xs \<Longrightarrow> f_open (xs ! a) \<Longrightarrow>
   Suc (length (filter f_open (xs[a := (xs ! a)\<lparr>f_open := False\<rparr>]))) = length (filter f_open xs)"
proof (induction xs arbitrary: a)
  case Nil
  then show ?case by simp
next
  case (Cons x xs)
  then show ?case by (cases a) simp_all
qed

lemma flagged_counts:
  "a < length xs \<Longrightarrow> f_open (xs ! a) \<Longrightarrow> 0 < length (filter f_open xs)"
proof -
  assume "a < length xs" and f: "f_open (xs ! a)"
  then have "xs ! a \<in> set xs" by simp
  with f have "filter f_open xs \<noteq> []" by (auto simp: filter_empty_conv)
  then show ?thesis by simp
qed

lemma parse_f_open: "f_open (snd (parse f nm)) = f_open f"
  by (simp add: parse_def split: prod.split option.split list.split scanned.split)

lemma GetFiles_loop_unflagged:
  "\<not> f_open f \<Longrightarrow> filter f_open ff = [] \<Longrightarrow> filter f_open (GetFiles_loop t f fnn ff) = []"
proof (induction fnn arbitrary: f ff)
  case Nil
  then show ?case by simp
next
  case (Cons fn fnn)
  obtain ok f' where p: "parse f fn = (ok, f')" by (cases "parse f fn")
  with parse_f_open [of f fn] Cons.prems have f': "\<not> f_open f'" by simp
  have z: "\<not> f_open zero_file" by (simp add: zero_file_def)
  show ?case
  proof (cases "ok \<and> f_t f' \<in> set t")
    case True
    have "filter f_open (ff @ [f']) = []" using Cons.prems f' by simp
    with z have "filter f_open (GetFiles_loop t zero_file fnn (ff @ [f'])) = []" by (rule Cons.IH)
    with p True show ?thesis by simp
  next
    case False
    from f' Cons.prems(2) have "filter f_open (GetFiles_loop t f' fnn ff) = []" by (rule Cons.IH)
    with p False show ?thesis by auto
  qed
qed

lemma counted_log [simp]: "counted (log s m) = counted s"
  by (simp add: counted_def)

lemma counted_dir [simp]: "counted (s\<lparr>dir := d\<rparr>) = counted s"
  by (simp add: counted_def)

lemma counted_append:
  "filter f_open ff = [] \<Longrightarrow> counted (s\<lparr>heap := heap s @ ff\<rparr>) = counted s"
  by (simp add: counted_def)

lemma counted_Lock: "counted s \<Longrightarrow> counted (snd (Lock s))"
  by (auto simp: Lock_def counted_def)

lemma counted_Log: "counted s \<Longrightarrow> counted (Log s str)"
  by (simp add: Log_def)

lemma counted_GetFile: "counted s \<Longrightarrow> counted (snd (GetFile s num t))"
  by (simp add: GetFile_def counted_append)

lemma counted_GetFiles: "counted s \<Longrightarrow> counted (snd (GetFiles s t env))"
proof -
  have u: "filter f_open (GetFiles_loop t zero_file (readdirnames env) []) = []"
    by (rule GetFiles_loop_unflagged) (simp_all add: zero_file_def)
  assume "counted s"
  then show ?thesis
    using counted_append [OF u, of "log s m" for m] counted_append [OF u, of s]
    by (simp add: GetFiles_def Let_def split: option.split)
qed

lemma counted_GetManifest: "counted s \<Longrightarrow> counted (snd (GetManifest s env))"
proof -
  have u: "filter f_open [snd (parse zero_file nm)] = []" for nm
    by (simp add: parse_f_open zero_file_def)
  assume "counted s"
  then show ?thesis
    using counted_append [OF u, of "log s m" for m] counted_append [OF u, of s]
    by (simp add: GetManifest_def Let_def split: option.split sum.split)
qed

lemma counted_SetManifest_return [simp]: "counted (SetManifest_return s env n err) = counted s"
  by (simp add: SetManifest_return_def Let_def split: option.split)

lemma counted_SetManifest: "counted s \<Longrightarrow> counted (snd (SetManifest s a env))"
  by (simp add: SetManifest_def Let_def split: option.split sum.split outcome.split)

lemma counted_Close: "counted s \<Longrightarrow> counted (snd (Close s env))"
  by (auto simp: Close_def Let_def counted_def)

lemma counted_flag_set:
  assumes "counted s" "a < length (heap s)" "0 \<le> fs_open s" "\<not> f_open (heap s ! a)"
  shows "counted (s\<lparr>heap := (heap s)[a := (heap s ! a)\<lparr>f_open := True\<rparr>], fs_open := fs_open s + 1\<rparr>)"
  using assms count_set [of a "heap s"] by (simp add: counted_def)

lemma counted_Open: "counted s \<Longrightarrow> counted (snd (Open s a env))"
  using Open_cases [of s a env] counted_flag_set [of s a]
  by (auto split: prod.splits outcome.splits sum.splits)

lemma counted_Create: "counted s \<Longrightarrow> counted (snd (Create s a env))"
proof -
  assume c: "counted s"
  show ?thesis
  proof (cases "Create s a env")
    case (Pair r s')
    show ?thesis
    proof (cases r)
      case (Panics p)
      with Pair Create_cases [of s a env] c show ?thesis by simp
    next
      case (Returns v)
      show ?thesis
      proof (cases v)
        case (Inl e)
        with Returns Pair Create_cases [of s a env] c show ?thesis by simp
      next
        case (Inr h)
        with Returns Pair Create_cases [of s a env] have
          "a < length (heap s)" "0 \<le> fs_open s" "\<not> f_open (heap s ! a)"
          "s' = s\<lparr>heap := (heap s)[a := (heap s ! a)\<lparr>f_open := True\<rparr>], fs_open := fs_open s + 1,
               dir := (dir s)(fw_File h \<mapsto> [])\<rparr>"
          by simp_all
        with c counted_flag_set [of s a] have "counted s'" by (simp add: counted_def)
        with Pair show ?thesis by simp
      qed
    qed
  qed
qed

lemma counted_Remove: "counted s \<Longrightarrow> counted (snd (Remove s a env))"
  by (simp add: Remove_def Let_def split: option.split sum.split outcome.split)

lemma counted_fileWrap_Close: "counted s \<Longrightarrow> counted (snd (fileWrap_Close s fw env))"
proof -
  assume c: "counted s"
  show ?thesis
  proof (cases "fw_f fw < length (heap s) \<and> f_open (heap s ! fw_f fw)")
    case False
    with c show ?thesis by (auto simp: fileWrap_Close_def Let_def)
  next
    case True
    then have a: "fw_f fw < length (heap s)" and f: "f_open (heap s ! fw_f fw)" by simp_all
    from flagged_counts [OF a f] have "filter f_open (heap s) \<noteq> []" by auto
    with c have e: "fs_open s = int (length (filter f_open (heap s)))" by (simp add: counted_def)
    have "counted (s\<lparr>heap := (heap s)[fw_f fw := (heap s ! fw_f fw)\<lparr>f_open := False\<rparr>],
        fs_open := fs_open s - 1\<rparr>)"
      using e count_clear [OF a f] by (simp add: counted_def)
    then show ?thesis
      by (simp add: fileWrap_Close_flagged [OF a f] split: option.split)
  qed
qed

lemma counted_after: "counted s \<Longrightarrow> counted (after s c)"
  by (cases c)
    (simp_all add: counted_Lock counted_Log counted_GetFile counted_GetFiles counted_GetManifest
      counted_SetManifest counted_Close counted_Open counted_Create counted_Remove
      counted_fileWrap_Close)

lemma counted_run: "counted s \<Longrightarrow> counted (run s cs)"
  unfolding run_def by (induction cs arbitrary: s) (simp_all add: counted_after)

lemma counted_new_storage: "counted (new_storage d)"
  by (simp add: counted_def new_storage_def)

text \<open>
  What a call does to an object: its number and kind stay, and its flag stays set
  unless the call closes a handle of the object.
\<close>

lemma nth_update_field:
  "a < length xs \<Longrightarrow>
   f_num ((xs[b := (xs ! b)\<lparr>f_open := v\<rparr>]) ! a) = f_num (xs ! a) \<and>
   f_t ((xs[b := (xs ! b)\<lparr>f_open := v\<rparr>]) ! a) = f_t (xs ! a)"
  by (cases "a = b") simp_all

lemma nth_update_flag:
  "a < length xs \<Longrightarrow> f_open (xs ! a) \<Longrightarrow> f_open ((xs[b := (xs ! b)\<lparr>f_open := True\<rparr>]) ! a)"
  by (cases "a = b") simp_all

lemma heap_Open:
  "heap (snd (Open s b env)) = heap s \<or>
   heap (snd (Open s b env)) = (heap s)[b := (heap s ! b)\<lparr>f_open := True\<rparr>]"
  using Open_cases [of s b env] by (auto split: prod.splits outcome.splits sum.splits)

lemma heap_Create:
  "heap (snd (Create s b env)) = heap s \<or>
   heap (snd (Create s b env)) = (heap s)[b := (heap s ! b)\<lparr>f_open := True\<rparr>]"
  using Create_cases [of s b env] by (auto split: prod.splits outcome.splits sum.splits)

lemma heap_fileWrap_Close:
  "heap (snd (fileWrap_Close s fw env)) = heap s \<or>
   heap (snd (fileWrap_Close s fw env)) = (heap s)[fw_f fw := (heap s ! fw_f fw)\<lparr>f_open := False\<rparr>]"
  by (simp add: fileWrap_Close_def Let_def split: option.split)

lemma heap_Remove: "heap (snd (Remove s b env)) = heap s"
  by (simp add: Remove_def Let_def split: option.split sum.split outcome.split)

lemma heap_SetManifest: "heap (snd (SetManifest s b env)) = heap s"
  by (simp add: SetManifest_def Let_def split: option.split sum.split outcome.split)

lemma heap_Close: "heap (snd (Close s env)) = heap s"
  by (simp add: Close_def Let_def)

lemma heap_Lock: "heap (snd (Lock s)) = heap s"
  by (simp add: Lock_def)

lemma heap_Log: "heap (Log s str) = heap s"
  by (simp add: Log_def)

lemma heap_GetFile: "\<exists>ff. heap (snd (GetFile s num t)) = heap s @ ff"
  by (simp add: GetFile_def)

lemma heap_GetFiles: "\<exists>ff. heap (snd (GetFiles s t env)) = heap s @ ff"
  by (simp add: GetFiles_def Let_def split: option.split)

lemma heap_GetManifest: "\<exists>ff. heap (snd (GetManifest s env)) = heap s @ ff"
  by (simp add: GetManifest_def Let_def split: option.split sum.split)

lemma object_after:
  assumes a: "a < length (heap s)"
  shows "a < length (heap (after s c)) \<and>
         f_num (heap (after s c) ! a) = f_num (heap s ! a) \<and>
         f_t (heap (after s c) ! a) = f_t (heap s ! a) \<and>
         (f_open (heap s ! a) \<and> \<not> closes a c \<longrightarrow> f_open (heap (after s c) ! a))"
proof (cases c)
  case Call_Lock
  with a show ?thesis by (simp add: heap_Lock)
next
  case (Call_Log str)
  with a show ?thesis by (simp add: heap_Log)
next
  case (Call_GetFile num t)
  with a heap_GetFile [of s num t] show ?thesis by (auto simp: nth_append)
next
  case (Call_GetFiles t env)
  with a heap_GetFiles [of s t env] show ?thesis by (auto simp: nth_append)
next
  case (Call_GetManifest env)
  with a heap_GetManifest [of s env] show ?thesis by (auto simp: nth_append)
next
  case (Call_SetManifest b env)
  with a show ?thesis by (simp add: heap_SetManifest)
next
  case (Call_Close env)
  with a show ?thesis by (simp add: heap_Close)
next
  case (Call_Open b env)
  with a heap_Open [of s b env] nth_update_field [OF a, of b True] nth_update_flag [OF a, of b]
  show ?thesis by auto
next
  case (Call_Create b env)
  with a heap_Create [of s b env] nth_update_field [OF a, of b True] nth_update_flag [OF a, of b]
  show ?thesis by auto
next
  case (Call_Remove b env)
  with a show ?thesis by (simp add: heap_Remove)
next
  case (Call_fileWrap_Close fw env)
  with a heap_fileWrap_Close [of s fw env] nth_update_field [OF a, of "fw_f fw" False]
  show ?thesis by auto
qed

lemma object_run:
  "a < length (heap s) \<Longrightarrow>
   a < length (heap (run s cs)) \<and>
   f_num (heap (run s cs) ! a) = f_num (heap s ! a) \<and>
   f_t (heap (run s cs) ! a) = f_t (heap s ! a) \<and>
   (f_open (heap s ! a) \<and> list_all (\<lambda>c. \<not> closes a c) cs \<longrightarrow> f_open (heap (run s cs) ! a))"
proof (induction cs arbitrary: s)
  case Nil
  then show ?case by (simp add: run_def)
next
  case (Cons c cs)
  from object_after [OF Cons.prems, of c] have
    1: "a < length (heap (after s c))" and
    2: "f_num (heap (after s c) ! a) = f_num (heap s ! a)" and
    3: "f_t (heap (after s c) ! a) = f_t (heap s ! a)" and
    4: "f_open (heap s ! a) \<and> \<not> closes a c \<longrightarrow> f_open (heap (after s c) ! a)"
    by simp_all
  have r: "run s (c # cs) = run (after s c) cs" by (simp add: run_def)
  from Cons.IH [OF 1] 2 3 4 show ?case unfolding r by simp
qed

lemma name_fields: "f_num f = f_num g \<Longrightarrow> f_t f = f_t g \<Longrightarrow> name f = name g"
  by (cases "f_t g") (simp_all add: name_def)

lemma counted_flagged_active:
  "counted s \<Longrightarrow> a < length (heap s) \<Longrightarrow> f_open (heap s ! a) \<Longrightarrow> 0 < fs_open s"
  using flagged_counts [of a "heap s"] by (auto simp: counted_def)

lemma counted_closed_unflagged:
  "counted s \<Longrightarrow> fs_open s < 0 \<Longrightarrow> a < length (heap s) \<Longrightarrow> \<not> f_open (heap s ! a)"
  using counted_flagged_active [of s a] by auto

lemma handle_held:
  assumes c: "counted s"
    and got: "Open s a env = (Returns (Inr h), s1) \<or> Create s a env = (Returns (Inr h), s1)"
    and nc: "list_all (\<lambda>c. \<not> closes a c) cs"
  shows "a < length (heap (run s1 cs))" and "f_open (heap (run s1 cs) ! a)"
    and "0 < fs_open (run s1 cs)" and "counted (run s1 cs)"
    and "name (heap (run s1 cs) ! a) = Returns (fw_File h)" and "fw_f h = a"
proof -
  have s1: "s1 = snd (Open s a env) \<or> s1 = snd (Create s a env)" using got by auto
  then have c1: "counted s1" using c counted_Open [of s a env] counted_Create [of s a env] by auto
  from got have base:
    "a < length (heap s1) \<and> f_open (heap s1 ! a) \<and> fw_f h = a \<and>
     name (heap s1 ! a) = Returns (fw_File h)"
  proof
    assume "Open s a env = (Returns (Inr h), s1)"
    with Open_cases [of s a env] show ?thesis by simp
  next
    assume "Create s a env = (Returns (Inr h), s1)"
    with Create_cases [of s a env] show ?thesis by simp
  qed
  then have a1: "a < length (heap s1)" by simp
  from object_run [OF a1, of cs] base nc show a2: "a < length (heap (run s1 cs))"
    and f2: "f_open (heap (run s1 cs) ! a)" by simp_all
  show c2: "counted (run s1 cs)" using c1 by (rule counted_run)
  show "0 < fs_open (run s1 cs)" using c2 a2 f2 by (rule counted_flagged_active)
  have "name (heap (run s1 cs) ! a) = name (heap s1 ! a)"
    using object_run [OF a1, of cs] by (intro name_fields) simp_all
  with base show "name (heap (run s1 cs) ! a) = Returns (fw_File h)" by simp
  from base show "fw_f h = a" by simp
qed

text \<open>The inputs of the closed theorems, written out.\<close>

lemma two_objects_eq:
  "two_objects = \<lparr>flock_held = True, slock = False, logw = [], logw_closed = False, fs_open = 0,
      heap = [\<lparr>f_num = 1, f_t = TypeTable, f_open = False\<rparr>, \<lparr>f_num = 1, f_t = TypeTable, f_open = False\<rparr>],
      dir = table_dir\<rparr>"
  by (simp add: two_objects_def GetFile_def new_storage_def)

lemma name_table_1: "name \<lparr>f_num = 1, f_t = TypeTable, f_open = b\<rparr> = Returns (runes ''000001.sst'')"
proof -
  have "decimal (unat (1::64 word)) = [49]" by (simp add: decimal_small)
  then show ?thesis by (simp add: name_def Sprintf_06d_def replicate_5 runes_def)
qed

lemma Open_two_objects:
  "Open two_objects 0 no_faults =
     (Returns (Inr table_handle),
      two_objects\<lparr>heap := [\<lparr>f_num = 1, f_t = TypeTable, f_open = True\<rparr>,
                            \<lparr>f_num = 1, f_t = TypeTable, f_open = False\<rparr>],
                  fs_open := 1\<rparr>)"
  by (simp add: two_objects_eq Open_def name_table_1 os_OpenFile_RDONLY_def no_faults_def
      table_dir_def table_handle_def)

lemma one_opened_eq:
  "one_opened = \<lparr>flock_held = True, slock = False, logw = [], logw_closed = False, fs_open = 1,
      heap = [\<lparr>f_num = 1, f_t = TypeTable, f_open = True\<rparr>, \<lparr>f_num = 1, f_t = TypeTable, f_open = False\<rparr>],
      dir = table_dir\<rparr>"
  by (simp add: one_opened_def Open_two_objects) (simp add: two_objects_eq)

lemma kinds_world_eq:
  "kinds_world = \<lparr>flock_held = True, slock = False, logw = [], logw_closed = False, fs_open = 0,
      heap = [\<lparr>f_num = 7, f_t = TypeManifest, f_open = False\<rparr>, \<lparr>f_num = 7, f_t = TypeJournal, f_open = False\<rparr>],
      dir = Map.empty\<rparr>"
  by (simp add: kinds_world_def GetFile_def new_storage_def)

lemma Sprintf_06d_7: "Sprintf_06d 7 = runes ''000007''"
proof -
  have "decimal (unat (7::64 word)) = [55]" by (simp add: decimal_small)
  then show ?thesis by (simp add: Sprintf_06d_def replicate_5 runes_def)
qed

lemma tmp_name_7: "tmp_name 7 = runes ''CURRENT.7''"
proof -
  have "decimal (unat (7::64 word)) = [55]" by (simp add: decimal_small)
  then show ?thesis by (simp add: tmp_name_def CURRENT_def runes_def)
qed

section \<open>Opening, closing and removing files: claims\<close>

text \<open>
  C10. \<open>Open\<close> and \<open>Create\<close> change the storage only when they return a handle: then
  the open flag of the object, which was not set, is set and the counter of opened
  files is one more. When they return an error (\<open>ErrClosed\<close>, \<open>errFileOpen\<close> or an error
  of the operating system) the whole state is what it was before the call, the flag
  and the counter with it; so it is when \<open>name\<close> panics.
\<close>

theorem Open_Create_atomic:
  "(case Open s a env of
      (Returns (Inr h), s') \<Rightarrow>
        \<not> f_open (heap s ! a) \<and> f_open (heap s' ! a) \<and> fs_open s' = fs_open s + 1
    | (Returns (Inl e), s') \<Rightarrow> s' = s
    | (Panics p, s') \<Rightarrow> s' = s) \<and>
   (case Create s a env of
      (Returns (Inr h), s') \<Rightarrow>
        \<not> f_open (heap s ! a) \<and> f_open (heap s' ! a) \<and> fs_open s' = fs_open s + 1
    | (Returns (Inl e), s') \<Rightarrow> s' = s
    | (Panics p, s') \<Rightarrow> s' = s)"
  using Open_cases [of s a env] Create_cases [of s a env]
  by (auto split: prod.splits outcome.splits sum.splits)

theorem Open_Create_atomic_witness:
  "fst (Open two_objects 0 no_faults) = Returns (Inr table_handle) \<and>
   fs_open (snd (Open two_objects 0 no_faults)) = fs_open two_objects + 1 \<and>
   f_open (heap (snd (Open two_objects 0 no_faults)) ! 0) \<and>
   Open two_objects 0 open_fails = (Returns (Inl (OSError (EOther 13))), two_objects) \<and>
   Create two_objects 0 open_fails = (Returns (Inl (OSError (EOther 13))), two_objects) \<and>
   Open one_opened 0 no_faults = (Returns (Inl errFileOpen), one_opened)"
proof -
  have a: "fst (Open two_objects 0 no_faults) = Returns (Inr table_handle)"
    by (simp add: Open_two_objects)
  have b: "fst (Open two_objects 0 open_fails) = Returns (Inl (OSError (EOther 13)))"
    by (simp add: two_objects_eq Open_def Let_def name_table_1 os_OpenFile_RDONLY_def open_fails_def)
  have c: "fst (Create two_objects 0 open_fails) = Returns (Inl (OSError (EOther 13)))"
    by (simp add: two_objects_eq Create_def Let_def name_table_1 os_OpenFile_CREATE_def open_fails_def)
  have d: "fst (Open one_opened 0 no_faults) = Returns (Inl errFileOpen)"
    by (simp add: one_opened_eq Open_def Let_def)
  have a': "fs_open (snd (Open two_objects 0 no_faults)) = fs_open two_objects + 1 \<and>
      f_open (heap (snd (Open two_objects 0 no_faults)) ! 0)"
    using Open_Create_atomic [of two_objects 0 no_faults] a
    by (simp split: prod.splits)
  have b': "snd (Open two_objects 0 open_fails) = two_objects"
    using Open_Create_atomic [of two_objects 0 open_fails] b
    by (simp split: prod.splits)
  have c': "snd (Create two_objects 0 open_fails) = two_objects"
    using Open_Create_atomic [of two_objects 0 open_fails] c
    by (simp split: prod.splits)
  have d': "snd (Open one_opened 0 no_faults) = one_opened"
    using Open_Create_atomic [of one_opened 0 no_faults] d
    by (simp split: prod.splits)
  show ?thesis
    using a a' b b' c c' d d' by (simp add: prod_eq_iff)
qed

text \<open>
  C5, as the claim states it: the two objects that two calls \<^verbatim>\<open>GetFile(1, TypeTable)\<close>
  return hold the same kind and number, and after \<open>Open\<close> on the first has returned
  a handle, which is not closed, \<open>Open\<close> on the second returns a handle too. Two handles
  are live for the descriptor (Table, 1) and the counter is 2.
\<close>

theorem second_object_opens:
  "fst (GetFile (new_storage table_dir) 1 TypeTable) = 0 \<and>
   fst (GetFile (snd (GetFile (new_storage table_dir) 1 TypeTable)) 1 TypeTable) = 1 \<and>
   fst (Open two_objects 0 no_faults) = Returns (Inr \<lparr>fw_File = runes ''000001.sst'', fw_f = 0\<rparr>) \<and>
   fst (Open (snd (Open two_objects 0 no_faults)) 1 no_faults) =
     Returns (Inr \<lparr>fw_File = runes ''000001.sst'', fw_f = 1\<rparr>) \<and>
   fs_open (snd (Open (snd (Open two_objects 0 no_faults)) 1 no_faults)) = 2"
  by (simp add: two_objects_eq GetFile_def new_storage_def Open_def name_table_1
      os_OpenFile_RDONLY_def no_faults_def table_dir_def)

text \<open>
  C5, amended. The open flag belongs to the file object that a call of \<^verbatim>\<open>GetFile\<close>
  returns. Take a storage whose counter counts the flags (every storage that calls
  lead to from a new one), an object on which \<open>Open\<close> or \<open>Create\<close> has returned a
  handle, and any calls after that, on this or other objects, none of which closes a
  handle of the object. Then \<open>Open\<close> and \<open>Create\<close> on that same object fail with
  \<open>errFileOpen\<close> and change nothing. Closing the handle clears the flag and takes the
  counter down by one, whatever the operating system answers to the close; after that
  \<open>Open\<close> and \<open>Create\<close> on the object return a handle again, provided the operating
  system opens the file.
\<close>

theorem one_handle_per_file_object:
  assumes "counted s"
    and "Open s a env = (Returns (Inr h), s1) \<or> Create s a env = (Returns (Inr h), s1)"
    and "list_all (\<lambda>c. \<not> closes a c) cs"
  shows "Open (run s1 cs) a env1 = (Returns (Inl errFileOpen), run s1 cs) \<and>
         Create (run s1 cs) a env1 = (Returns (Inl errFileOpen), run s1 cs) \<and>
         fst (fileWrap_Close (run s1 cs) h env2) = Returns (map_option OSError (fault_close env2)) \<and>
         \<not> f_open (heap (snd (fileWrap_Close (run s1 cs) h env2)) ! a) \<and>
         fs_open (snd (fileWrap_Close (run s1 cs) h env2)) = fs_open (run s1 cs) - 1 \<and>
         (os_OpenFile_RDONLY env3 (dir (run s1 cs)) (fw_File h) = Inr () \<longrightarrow>
            fst (Open (snd (fileWrap_Close (run s1 cs) h env2)) a env3) = Returns (Inr h)) \<and>
         (fault_open env3 = None \<longrightarrow>
            fst (Create (snd (fileWrap_Close (run s1 cs) h env2)) a env3) = Returns (Inr h))"
proof -
  let ?s2 = "run s1 cs"
  note held = handle_held [OF assms]
  have a2: "a < length (heap ?s2)" and f2: "f_open (heap ?s2 ! a)" and o2: "0 < fs_open ?s2"
    and n2: "name (heap ?s2 ! a) = Returns (fw_File h)" and fw: "fw_f h = a"
    using held by simp_all
  from o2 have o2': "0 \<le> fs_open ?s2" by simp
  have 1: "Open ?s2 a env1 = (Returns (Inl errFileOpen), ?s2)"
    using a2 o2' f2 by (rule Open_flagged)
  have 2: "Create ?s2 a env1 = (Returns (Inl errFileOpen), ?s2)"
    using a2 o2' f2 by (rule Create_flagged)
  from a2 f2 have c:
    "fileWrap_Close ?s2 h env2 =
     (Returns (map_option OSError (fault_close env2)),
      (case fault_close env2 of
         Some e \<Rightarrow> log (?s2\<lparr>heap := (heap ?s2)[a := (heap ?s2 ! a)\<lparr>f_open := False\<rparr>],
                           fs_open := fs_open ?s2 - 1\<rparr>)
                     (Log_close_file (f_t (heap ?s2 ! a)) (f_num (heap ?s2 ! a)) (OSError e))
       | None \<Rightarrow> ?s2\<lparr>heap := (heap ?s2)[a := (heap ?s2 ! a)\<lparr>f_open := False\<rparr>],
                    fs_open := fs_open ?s2 - 1\<rparr>))"
    using fileWrap_Close_flagged [of h ?s2 env2] unfolding fw by simp
  let ?s3 = "snd (fileWrap_Close ?s2 h env2)"
  have 3: "fst (fileWrap_Close ?s2 h env2) = Returns (map_option OSError (fault_close env2))"
    by (simp add: c)
  have h3: "heap ?s3 = (heap ?s2)[a := (heap ?s2 ! a)\<lparr>f_open := False\<rparr>]"
    and o3: "fs_open ?s3 = fs_open ?s2 - 1" and d3: "dir ?s3 = dir ?s2"
    by (simp_all add: c split: option.split)
  have 4: "\<not> f_open (heap ?s3 ! a)" using a2 by (simp add: h3)
  have n3: "name (heap ?s3 ! a) = Returns (fw_File h)" using a2 n2 by (simp add: h3)
  have a3: "a < length (heap ?s3)" using a2 by (simp add: h3)
  have act: "\<not> fs_open ?s3 < 0" using o2 o3 by simp
  have 5: "os_OpenFile_RDONLY env3 (dir ?s2) (fw_File h) = Inr () \<longrightarrow>
      fst (Open ?s3 a env3) = Returns (Inr h)"
    using a3 4 n3 act fw by (simp add: Open_def Let_def d3)
  have 6: "fault_open env3 = None \<longrightarrow> fst (Create ?s3 a env3) = Returns (Inr h)"
    using a3 4 n3 act fw by (simp add: Create_def Let_def os_OpenFile_CREATE_def)
  from 1 2 3 4 o3 5 6 show ?thesis by blast
qed

theorem one_handle_per_file_object_witness:
  "counted two_objects \<and>
   Open two_objects 0 no_faults = (Returns (Inr table_handle), one_opened) \<and>
   list_all (\<lambda>c. \<not> closes 0 c) [Call_Open 1 no_faults] \<and>
   Open (run one_opened [Call_Open 1 no_faults]) 0 no_faults =
     (Returns (Inl errFileOpen), run one_opened [Call_Open 1 no_faults]) \<and>
   Create (run one_opened [Call_Open 1 no_faults]) 0 no_faults =
     (Returns (Inl errFileOpen), run one_opened [Call_Open 1 no_faults]) \<and>
   fst (fileWrap_Close (run one_opened [Call_Open 1 no_faults]) table_handle no_faults) =
     Returns None \<and>
   fst (Open (snd (fileWrap_Close (run one_opened [Call_Open 1 no_faults]) table_handle no_faults))
          0 no_faults) = Returns (Inr table_handle) \<and>
   fst (Create (snd (fileWrap_Close (run one_opened [Call_Open 1 no_faults]) table_handle no_faults))
          0 no_faults) = Returns (Inr table_handle)"
proof -
  have c: "counted two_objects" by (simp add: counted_def two_objects_eq)
  have o: "Open two_objects 0 no_faults = (Returns (Inr table_handle), one_opened)"
    by (simp add: one_opened_def Open_two_objects)
  then have o':
    "Open two_objects 0 no_faults = (Returns (Inr table_handle), one_opened) \<or>
     Create two_objects 0 no_faults = (Returns (Inr table_handle), one_opened)" ..
  have n: "list_all (\<lambda>c. \<not> closes 0 c) [Call_Open 1 no_faults]" by simp
  have f: "fault_open no_faults = None" "fault_close no_faults = None"
    by (simp_all add: no_faults_def)
  have d: "dir (run one_opened [Call_Open 1 no_faults]) = table_dir"
    by (simp add: run_def one_opened_eq Open_def Let_def name_table_1 os_OpenFile_RDONLY_def
        no_faults_def table_dir_def)
  have r: "os_OpenFile_RDONLY no_faults (dir (run one_opened [Call_Open 1 no_faults]))
      (fw_File table_handle) = Inr ()"
    unfolding d by (simp add: os_OpenFile_RDONLY_def no_faults_def table_dir_def table_handle_def)
  show ?thesis
    using c o n one_handle_per_file_object [OF c o' n, of no_faults no_faults no_faults] f r
    by simp
qed

text \<open>
  C6, as the claim states it: the objects 0 and 1 hold the same descriptor (Table, 1).
  \<open>Open\<close> on the object 0 has returned a handle, which is not closed, so the
  descriptor has a live handle. \<open>Remove\<close> on the object 1 returns no error and
  deletes the file \<^verbatim>\<open>000001.sst\<close>; the flag of the object 0 is still set and the
  counter is still 1.
\<close>

theorem Remove_under_live_handle:
  "fst (Open two_objects 0 no_faults) = Returns (Inr table_handle) \<and>
   f_num (heap one_opened ! 1) = f_num (heap one_opened ! 0) \<and>
   f_t (heap one_opened ! 1) = f_t (heap one_opened ! 0) \<and>
   dir one_opened (runes ''000001.sst'') = Some (runes ''data'') \<and>
   fst (Remove one_opened 1 no_faults) = Returns None \<and>
   dir (snd (Remove one_opened 1 no_faults)) (runes ''000001.sst'') = None \<and>
   f_open (heap (snd (Remove one_opened 1 no_faults)) ! 0) \<and>
   fs_open (snd (Remove one_opened 1 no_faults)) = 1"
proof -
  have o: "fst (Open two_objects 0 no_faults) = Returns (Inr table_handle)"
    by (simp add: Open_two_objects)
  have r: "Remove one_opened 1 no_faults =
      (Returns None, one_opened\<lparr>dir := table_dir(runes ''000001.sst'' := None)\<rparr>)"
    by (simp add: one_opened_eq Remove_def Let_def name_table_1 os_Remove_def no_faults_def
        table_dir_def)
  have d: "dir one_opened (runes ''000001.sst'') = Some (runes ''data'')"
    by (simp add: one_opened_eq table_dir_def)
  show ?thesis
    unfolding r using o d by (simp add: one_opened_eq)
qed

text \<open>
  C6, amended. The open flag belongs to the file object: \<open>Remove\<close> asks for the flag
  of the object it is called on, which \<open>Open\<close> and \<open>Create\<close> on that object set and
  the close of a handle of that object clears. On a closed storage \<open>Remove\<close> fails with
  \<open>ErrClosed\<close>; on an active storage and an object whose flag is set it fails with
  \<open>errFileOpen\<close>; in both cases nothing changes, so the file is not deleted. The flag
  is set from the call of \<open>Open\<close> or \<open>Create\<close> that returns a handle of the object
  through every later call that closes no handle of it, so \<open>Remove\<close> fails with
  \<open>errFileOpen\<close> all that time. Otherwise, for an object that \<open>name\<close> names, the file
  of that name is deleted from the directory and no error is returned, or the deletion
  fails: then the failure is handed to the log and returned, and the directory is
  unchanged.
\<close>

theorem Remove_spec:
  assumes "a < length (heap s)"
  shows "(fs_open s < 0 \<longrightarrow> Remove s a env = (Returns (Some ErrClosed), s)) \<and>
         (0 \<le> fs_open s \<and> f_open (heap s ! a) \<longrightarrow>
            Remove s a env = (Returns (Some errFileOpen), s)) \<and>
         (counted s0 \<and>
          (Open s0 a env0 = (Returns (Inr h), s1) \<or> Create s0 a env0 = (Returns (Inr h), s1)) \<and>
          list_all (\<lambda>c. \<not> closes a c) cs \<longrightarrow>
            Remove (run s1 cs) a env = (Returns (Some errFileOpen), run s1 cs)) \<and>
         (0 \<le> fs_open s \<and> \<not> f_open (heap s ! a) \<and> name (heap s ! a) = Returns nm \<longrightarrow>
            (case os_Remove env (dir s) nm of
               Inr d1 \<Rightarrow>
                 d1 = (dir s)(nm := None) \<and> Remove s a env = (Returns None, s\<lparr>dir := d1\<rparr>)
             | Inl e \<Rightarrow>
                 Remove s a env =
                   (Returns (Some (OSError e)),
                    log s (Log_remove_file (f_t (heap s ! a)) (f_num (heap s ! a)) (OSError e)))))"
proof (intro conjI impI)
  assume "fs_open s < 0"
  with assms show "Remove s a env = (Returns (Some ErrClosed), s)" by (rule Remove_closed)
next
  assume "0 \<le> fs_open s \<and> f_open (heap s ! a)"
  with assms show "Remove s a env = (Returns (Some errFileOpen), s)"
    by (simp add: Remove_flagged)
next
  assume "counted s0 \<and>
    (Open s0 a env0 = (Returns (Inr h), s1) \<or> Create s0 a env0 = (Returns (Inr h), s1)) \<and>
    list_all (\<lambda>c. \<not> closes a c) cs"
  then have c: "counted s0"
    and got: "Open s0 a env0 = (Returns (Inr h), s1) \<or> Create s0 a env0 = (Returns (Inr h), s1)"
    and nc: "list_all (\<lambda>c. \<not> closes a c) cs"
    by simp_all
  note held = handle_held [OF c got nc]
  from held(3) have "0 \<le> fs_open (run s1 cs)" by simp
  with held(1) show "Remove (run s1 cs) a env = (Returns (Some errFileOpen), run s1 cs)"
    using held(2) by (rule Remove_flagged)
next
  assume h: "0 \<le> fs_open s \<and> \<not> f_open (heap s ! a) \<and> name (heap s ! a) = Returns nm"
  have d: "\<And>d1. os_Remove env (dir s) nm = Inr d1 \<Longrightarrow> d1 = (dir s)(nm := None)"
    by (auto simp: os_Remove_def split: option.splits)
  from assms h have
    "Remove s a env =
     (case os_Remove env (dir s) nm of
        Inl e \<Rightarrow> (Returns (Some (OSError e)),
                  log s (Log_remove_file (f_t (heap s ! a)) (f_num (heap s ! a)) (OSError e)))
      | Inr d1 \<Rightarrow> (Returns None, s\<lparr>dir := d1\<rparr>))"
    by (simp add: Remove_not_flagged)
  with d show "case os_Remove env (dir s) nm of
       Inr d1 \<Rightarrow> d1 = (dir s)(nm := None) \<and> Remove s a env = (Returns None, s\<lparr>dir := d1\<rparr>)
     | Inl e \<Rightarrow>
         Remove s a env =
           (Returns (Some (OSError e)),
            log s (Log_remove_file (f_t (heap s ! a)) (f_num (heap s ! a)) (OSError e)))"
    by (simp split: sum.split)
qed

theorem Remove_spec_witness:
  "0 < length (heap one_opened) \<and>
   Remove one_opened 0 no_faults = (Returns (Some errFileOpen), one_opened) \<and>
   Remove (run one_opened [Call_Open 1 no_faults]) 0 no_faults =
     (Returns (Some errFileOpen), run one_opened [Call_Open 1 no_faults]) \<and>
   dir one_opened (runes ''000001.sst'') = Some (runes ''data'') \<and>
   Remove (snd (Close two_objects no_faults)) 0 no_faults =
     (Returns (Some ErrClosed), snd (Close two_objects no_faults)) \<and>
   fst (Remove two_objects 0 no_faults) = Returns None \<and>
   dir (snd (Remove two_objects 0 no_faults)) (runes ''000001.sst'') = None \<and>
   Remove two_objects 0 remove_fails =
     (Returns (Some (OSError (EOther 13))),
      log two_objects (Log_remove_file TypeTable 1 (OSError (EOther 13)))) \<and>
   logw (snd (Remove two_objects 0 remove_fails)) =
     [Log_remove_file TypeTable 1 (OSError (EOther 13))]"
proof -
  have l1: "0 < length (heap one_opened)" by (simp add: one_opened_eq)
  have l2: "0 < length (heap two_objects)" by (simp add: two_objects_eq)
  have l3: "0 < length (heap (snd (Close two_objects no_faults)))"
    by (simp add: two_objects_eq Close_def Let_def)
  have c3: "fs_open (snd (Close two_objects no_faults)) < 0"
    by (simp add: two_objects_eq Close_def Let_def)
  have o1: "0 \<le> fs_open one_opened \<and> f_open (heap one_opened ! 0)" by (simp add: one_opened_eq)
  have d1: "dir one_opened (runes ''000001.sst'') = Some (runes ''data'')"
    by (simp add: one_opened_eq table_dir_def)
  have o2: "0 \<le> fs_open two_objects \<and> \<not> f_open (heap two_objects ! 0) \<and>
      name (heap two_objects ! 0) = Returns (runes ''000001.sst'')"
    by (simp add: two_objects_eq name_table_1)
  have r1: "os_Remove no_faults (dir two_objects) (runes ''000001.sst'') =
      Inr ((dir two_objects)(runes ''000001.sst'' := None))"
    by (simp add: os_Remove_def no_faults_def two_objects_eq table_dir_def)
  have r2: "os_Remove remove_fails (dir two_objects) (runes ''000001.sst'') = Inl (EOther 13)"
    by (simp add: os_Remove_def remove_fails_def)
  have t: "f_t (heap two_objects ! 0) = TypeTable" "f_num (heap two_objects ! 0) = 1"
    by (simp_all add: two_objects_eq)
  have a: "Remove one_opened 0 no_faults = (Returns (Some errFileOpen), one_opened)"
    using Remove_spec [OF l1, of no_faults] o1 by blast
  have k: "counted two_objects \<and>
      (Open two_objects 0 no_faults = (Returns (Inr table_handle), one_opened) \<or>
       Create two_objects 0 no_faults = (Returns (Inr table_handle), one_opened)) \<and>
      list_all (\<lambda>c. \<not> closes 0 c) [Call_Open 1 no_faults]"
  proof -
    have "counted two_objects" by (simp add: counted_def two_objects_eq)
    moreover have "Open two_objects 0 no_faults = (Returns (Inr table_handle), one_opened)"
      by (simp add: one_opened_def Open_two_objects)
    ultimately show ?thesis by simp
  qed
  have a': "Remove (run one_opened [Call_Open 1 no_faults]) 0 no_faults =
      (Returns (Some errFileOpen), run one_opened [Call_Open 1 no_faults])"
    using Remove_spec [OF l1, where ?s0.0 = two_objects and ?env0.0 = no_faults
        and h = table_handle and ?s1.0 = one_opened and cs = "[Call_Open 1 no_faults]"
        and env = no_faults] k
    by blast
  have b: "Remove (snd (Close two_objects no_faults)) 0 no_faults =
     (Returns (Some ErrClosed), snd (Close two_objects no_faults))"
    using Remove_spec [OF l3, of no_faults] c3 by blast
  have c: "Remove two_objects 0 no_faults =
      (Returns None, two_objects\<lparr>dir := (dir two_objects)(runes ''000001.sst'' := None)\<rparr>)"
    using Remove_spec [OF l2, where nm = "runes ''000001.sst''" and env = no_faults] o2 by (simp add: r1)
  have d: "Remove two_objects 0 remove_fails =
     (Returns (Some (OSError (EOther 13))),
      log two_objects (Log_remove_file TypeTable 1 (OSError (EOther 13))))"
    using Remove_spec [OF l2, where nm = "runes ''000001.sst''" and env = remove_fails] o2 by (simp add: r2 t)
  have e: "logw (snd (Remove two_objects 0 remove_fails)) =
     [Log_remove_file TypeTable 1 (OSError (EOther 13))]"
    by (simp add: d log_def) (simp add: two_objects_eq)
  show ?thesis using l1 a a' d1 b c d e by simp
qed

section \<open>Closing the storage: claims\<close>

text \<open>
  C4. With a positive counter \<open>Close\<close> fails with \<open>errFilesStillOpen\<close>, hands the refusal
  to the log and leaves the counter as it is, so the storage stays active. With the
  counter 0 it sets the counter to \<open>-1\<close> and closes the log file; the process lock is
  given up when its release succeeds, and the call returns no error when neither the
  release nor the close of the log fails. A second \<open>Close\<close> fails with \<open>ErrClosed\<close>. On a
  closed storage \<open>Close\<close>, \<open>Lock\<close>, \<open>GetFiles\<close>, \<open>GetManifest\<close>, \<open>SetManifest\<close>, \<open>Open\<close>,
  \<open>Create\<close> and \<open>Remove\<close> fail with \<open>ErrClosed\<close> and change nothing, \<open>Log\<close> writes
  nothing, and closing a handle cannot make the counter non-negative again; where the
  counter counts the flags, closing a handle fails with \<open>ErrClosed\<close> too.
\<close>

theorem Close_spec:
  "(0 < fs_open s \<longrightarrow>
      fst (Close s env) = Some (errFilesStillOpen (fs_open s)) \<and>
      snd (Close s env) = log s (Log_refuse_to_close (fs_open s)) \<and>
      fs_open (snd (Close s env)) = fs_open s) \<and>
   (fs_open s = 0 \<longrightarrow>
      fs_open (snd (Close s env)) = - 1 \<and>
      logw_closed (snd (Close s env)) \<and>
      (fault_release env = None \<longrightarrow> \<not> flock_held (snd (Close s env))) \<and>
      (fault_release env = None \<and> fault_logw_close env = None \<longrightarrow> fst (Close s env) = None) \<and>
      Close (snd (Close s env)) env' = (Some ErrClosed, snd (Close s env))) \<and>
   (fs_open s < 0 \<longrightarrow>
      Close s env = (Some ErrClosed, s) \<and>
      Lock s = (Inl ErrClosed, s) \<and>
      GetFiles s t env = (Inl ErrClosed, s) \<and>
      GetManifest s env = (Inl ErrClosed, s) \<and>
      SetManifest s a env = (Returns (Some ErrClosed), s) \<and>
      (a < length (heap s) \<longrightarrow>
         Open s a env = (Returns (Inl ErrClosed), s) \<and>
         Create s a env = (Returns (Inl ErrClosed), s) \<and>
         Remove s a env = (Returns (Some ErrClosed), s)) \<and>
      Log s str = s \<and>
      fs_open (snd (fileWrap_Close s fw env)) < 0 \<and>
      (counted s \<and> fw_f fw < length (heap s) \<longrightarrow>
         fileWrap_Close s fw env = (Returns (Some ErrClosed), s)))"
proof (intro conjI impI)
  assume "fs_open s < 0" and "counted s \<and> fw_f fw < length (heap s)"
  then have "\<not> f_open (heap s ! fw_f fw)" by (simp add: counted_closed_unflagged)
  then show "fileWrap_Close s fw env = (Returns (Some ErrClosed), s)"
    using \<open>counted s \<and> fw_f fw < length (heap s)\<close> by (simp add: fileWrap_Close_def Let_def)
next
  assume "fs_open s = 0"
  then have c: "fs_open (snd (Close s env)) = - 1" by (simp add: Close_closes)
  then have "fs_open (snd (Close s env)) < 0" by simp
  then show "Close (snd (Close s env)) env' = (Some ErrClosed, snd (Close s env))"
    by (rule closed_ops)
qed (simp_all add: Close_refuses Close_closes closed_ops Open_closed Create_closed
    Remove_closed fileWrap_Close_stays_closed)

theorem Close_spec_witness:
  "0 < fs_open one_opened \<and>
   fst (Close one_opened no_faults) = Some (errFilesStillOpen 1) \<and>
   fs_open (snd (Close one_opened no_faults)) = 1 \<and>
   fs_open two_objects = 0 \<and>
   fst (Close two_objects no_faults) = None \<and>
   fs_open (snd (Close two_objects no_faults)) = - 1 \<and>
   logw_closed (snd (Close two_objects no_faults)) \<and>
   \<not> flock_held (snd (Close two_objects no_faults)) \<and>
   Close (snd (Close two_objects no_faults)) no_faults =
     (Some ErrClosed, snd (Close two_objects no_faults)) \<and>
   Open (snd (Close two_objects no_faults)) 0 no_faults =
     (Returns (Inl ErrClosed), snd (Close two_objects no_faults)) \<and>
   GetManifest (snd (Close two_objects no_faults)) no_faults =
     (Inl ErrClosed, snd (Close two_objects no_faults)) \<and>
   fileWrap_Close (snd (Close two_objects no_faults)) table_handle no_faults =
     (Returns (Some ErrClosed), snd (Close two_objects no_faults))"
proof -
  have p: "0 < fs_open one_opened" "fs_open one_opened = 1" by (simp_all add: one_opened_eq)
  have z: "fs_open two_objects = 0" by (simp add: two_objects_eq)
  have f: "fault_release no_faults = None" "fault_logw_close no_faults = None"
    by (simp_all add: no_faults_def)
  let ?c = "snd (Close two_objects no_faults)"
  have n: "fs_open ?c < 0"
    using Close_spec [of two_objects no_faults no_faults] z by simp
  have l: "0 < length (heap ?c)" by (simp add: two_objects_eq Close_def Let_def)
  have a: "fst (Close one_opened no_faults) = Some (errFilesStillOpen 1) \<and>
      fs_open (snd (Close one_opened no_faults)) = 1"
    using Close_spec [of one_opened no_faults] p by simp
  have b: "fst (Close two_objects no_faults) = None \<and> fs_open ?c = - 1 \<and> logw_closed ?c \<and>
      \<not> flock_held ?c \<and> Close ?c no_faults = (Some ErrClosed, ?c)"
    using Close_spec [of two_objects no_faults no_faults] z f by simp
  have c: "Open ?c 0 no_faults = (Returns (Inl ErrClosed), ?c) \<and>
      GetManifest ?c no_faults = (Inl ErrClosed, ?c)"
    using Close_spec [of ?c no_faults _ _ 0] n l by simp
  have k: "counted ?c \<and> fw_f table_handle < length (heap ?c)"
    by (simp add: counted_def two_objects_eq Close_def Let_def table_handle_def)
  have d: "fileWrap_Close ?c table_handle no_faults = (Returns (Some ErrClosed), ?c)"
    using Close_spec [where s = ?c and fw = table_handle and env = no_faults] n k by blast
  show ?thesis using p(1) z a b c d by simp
qed

section \<open>Publishing the manifest: claims\<close>

text \<open>
  C1. On an active storage \<open>SetManifest\<close> with an object whose kind is not Manifest
  returns \<open>ErrInvalidFile\<close> and changes nothing. With a Manifest object it returns no
  error exactly when the operating system opens the temporary file, writes to it and
  renames it; then the directory is the old one without the temporary file
  \<^verbatim>\<open>CURRENT.<number>\<close> and with \<^verbatim>\<open>CURRENT\<close> holding the manifest's name and a newline,
  nothing else. When only the rename fails, the temporary file holds the name and the
  newline and \<^verbatim>\<open>CURRENT\<close> is what it was: the name is written to the temporary file
  first and renamed over \<^verbatim>\<open>CURRENT\<close> afterwards.
\<close>

theorem SetManifest_spec:
  assumes "0 \<le> fs_open s" and "a < length (heap s)"
  shows "(f_t (heap s ! a) \<noteq> TypeManifest \<longrightarrow>
            SetManifest s a env = (Returns (Some ErrInvalidFile), s)) \<and>
         (f_t (heap s ! a) = TypeManifest \<longrightarrow>
            (fst (SetManifest s a env) = Returns None) =
              (fault_open env = None \<and> fault_write env = None \<and> fault_rename env = None) \<and>
            (fst (SetManifest s a env) = Returns None \<longrightarrow>
               dir (snd (SetManifest s a env)) =
                 (dir s)(tmp_name (f_num (heap s ! a)) := None,
                         CURRENT \<mapsto> runes ''MANIFEST-'' @ Sprintf_06d (f_num (heap s ! a)) @ [10]) \<and>
               dir (snd (SetManifest s a env)) (tmp_name (f_num (heap s ! a))) = None \<and>
               dir (snd (SetManifest s a env)) CURRENT =
                 Some (runes ''MANIFEST-'' @ Sprintf_06d (f_num (heap s ! a)) @ [10])) \<and>
            (fault_open env = None \<and> fault_write env = None \<and> fault_rename env \<noteq> None \<longrightarrow>
               dir (snd (SetManifest s a env)) =
                 (dir s)(tmp_name (f_num (heap s ! a)) \<mapsto>
                           runes ''MANIFEST-'' @ Sprintf_06d (f_num (heap s ! a)) @ [10])))"
proof (intro conjI impI)
  assume "f_t (heap s ! a) \<noteq> TypeManifest"
  with assms show "SetManifest s a env = (Returns (Some ErrInvalidFile), s)"
    by (simp add: SetManifest_wrong_kind)
next
  assume m: "f_t (heap s ! a) = TypeManifest"
  note eq = SetManifest_manifest [OF assms m, of env]
  show "(fst (SetManifest s a env) = Returns None) =
        (fault_open env = None \<and> fault_write env = None \<and> fault_rename env = None)"
    by (simp add: eq split: option.split)
  {
    assume ok: "fst (SetManifest s a env) = Returns None"
    then have nf: "fault_open env = None \<and> fault_write env = None \<and> fault_rename env = None"
      by (simp add: eq split: option.splits)
    show d: "dir (snd (SetManifest s a env)) =
                 (dir s)(tmp_name (f_num (heap s ! a)) := None,
                         CURRENT \<mapsto> runes ''MANIFEST-'' @ Sprintf_06d (f_num (heap s ! a)) @ [10])"
      using nf by (simp add: eq tmp_name_def)
    show "dir (snd (SetManifest s a env)) (tmp_name (f_num (heap s ! a))) = None"
      unfolding d by (simp add: tmp_name_def runes_def)
    show "dir (snd (SetManifest s a env)) CURRENT =
                 Some (runes ''MANIFEST-'' @ Sprintf_06d (f_num (heap s ! a)) @ [10])"
      unfolding d by simp
  }
  {
    assume "fault_open env = None \<and> fault_write env = None \<and> fault_rename env \<noteq> None"
    then show "dir (snd (SetManifest s a env)) =
                 (dir s)(tmp_name (f_num (heap s ! a)) \<mapsto>
                           runes ''MANIFEST-'' @ Sprintf_06d (f_num (heap s ! a)) @ [10])"
      by (auto simp: eq tmp_name_def)
  }
qed

theorem SetManifest_spec_witness:
  "0 \<le> fs_open kinds_world \<and> 1 < length (heap kinds_world) \<and>
   f_t (heap kinds_world ! 1) \<noteq> TypeManifest \<and> f_t (heap kinds_world ! 0) = TypeManifest \<and>
   SetManifest kinds_world 1 no_faults = (Returns (Some ErrInvalidFile), kinds_world) \<and>
   fst (SetManifest kinds_world 0 no_faults) = Returns None \<and>
   dir (snd (SetManifest kinds_world 0 no_faults)) (runes ''CURRENT.7'') = None \<and>
   dir (snd (SetManifest kinds_world 0 no_faults)) CURRENT = Some (runes ''MANIFEST-000007'' @ [10]) \<and>
   dir (snd (SetManifest kinds_world 0 rename_fails)) (runes ''CURRENT.7'') =
     Some (runes ''MANIFEST-000007'' @ [10]) \<and>
   dir (snd (SetManifest kinds_world 0 rename_fails)) CURRENT = None"
proof -
  have w0: "0 \<le> fs_open kinds_world" by (simp add: kinds_world_eq)
  have l1: "1 < length (heap kinds_world)" by (simp add: kinds_world_eq)
  have l0: "0 < length (heap kinds_world)" by (simp add: kinds_world_eq)
  have k1: "f_t (heap kinds_world ! 1) \<noteq> TypeManifest" by (simp add: kinds_world_eq)
  have k0: "f_t (heap kinds_world ! 0) = TypeManifest" by (simp add: kinds_world_eq)
  have n0: "f_num (heap kinds_world ! 0) = 7" by (simp add: kinds_world_eq)
  have d0: "dir kinds_world = Map.empty" by (simp add: kinds_world_eq)
  have line: "runes ''MANIFEST-'' @ Sprintf_06d 7 @ [10] = runes ''MANIFEST-000007'' @ [10]"
    by (simp add: Sprintf_06d_7) (simp add: runes_def)
  have c: "runes ''CURRENT.7'' \<noteq> CURRENT" by (simp add: CURRENT_def runes_def)
  have a: "SetManifest kinds_world 1 no_faults = (Returns (Some ErrInvalidFile), kinds_world)"
    using SetManifest_spec [OF w0 l1, of no_faults] k1 by blast
  have ok: "fst (SetManifest kinds_world 0 no_faults) = Returns None"
    using SetManifest_spec [OF w0 l0, of no_faults] k0 by (simp add: no_faults_def)
  have b1: "dir (snd (SetManifest kinds_world 0 no_faults)) (tmp_name 7) = None"
    and b2: "dir (snd (SetManifest kinds_world 0 no_faults)) CURRENT =
      Some (runes ''MANIFEST-'' @ Sprintf_06d 7 @ [10])"
    using SetManifest_spec [OF w0 l0, of no_faults] k0 ok unfolding n0 by blast+
  have r: "fault_open rename_fails = None \<and> fault_write rename_fails = None \<and>
      fault_rename rename_fails \<noteq> None"
    by (simp add: rename_fails_def no_faults_def)
  have b3: "dir (snd (SetManifest kinds_world 0 rename_fails)) =
      (dir kinds_world)(tmp_name 7 \<mapsto> runes ''MANIFEST-'' @ Sprintf_06d 7 @ [10])"
    using SetManifest_spec [OF w0 l0, of rename_fails] k0 r unfolding n0 by blast
  have b4: "dir (snd (SetManifest kinds_world 0 rename_fails)) (runes ''CURRENT.7'') =
      Some (runes ''MANIFEST-000007'' @ [10])"
    unfolding b3 line tmp_name_7 by simp
  have b5: "dir (snd (SetManifest kinds_world 0 rename_fails)) CURRENT = None"
    unfolding b3 d0 tmp_name_7 using c by simp
  from b1 have b1': "dir (snd (SetManifest kinds_world 0 no_faults)) (runes ''CURRENT.7'') = None"
    unfolding tmp_name_7 .
  from b2 have b2': "dir (snd (SetManifest kinds_world 0 no_faults)) CURRENT =
      Some (runes ''MANIFEST-000007'' @ [10])"
    unfolding line .
  show ?thesis
    using w0 l1 k1 k0 a ok b1' b2' b4 b5 by blast
qed

end
